theory Spec2Isabelle
  imports Complex_Main "HOL-Library.Word"
begin

section \<open>DKM: k-means (Lloyd's algorithm, k-means++ initialisation)\<close>

text \<open>
  A shallow embedding of \<^verbatim>\<open>include/dkm.hpp\<close>. The header is a C++ template over the
  scalar type \<open>T\<close> and the dimension \<open>N\<close>:
  \<^item> \<open>T\<close> is the type variable \<open>'a\<close>. Its operators \<open>+\<close>, \<open>-\<close>, \<open>*\<close>, \<open><\<close> and the
    constants \<open>T()\<close> and \<open>1\<close> are the overloaded constants of HOL, so that each
    definition asks only for the operations it uses and a theorem holds for every
    scalar type of its sort. The operations whose meaning changes with the
    instantiation of \<open>T\<close> (division, the conversion of \<open>std::sqrt\<close>'s result back to
    \<open>T\<close>, the conversion to \<open>float\<close>) are fields of a \<open>platform\<close> record, together with
    the two distributions of the standard library, whose algorithms the C++ standard
    leaves to the implementation.
  \<^item> \<open>N\<close> is a parameter of type \<open>nat\<close>; a \<open>std::array<T, N>\<close> is a list, read and
    written at the indices below \<open>N\<close> only.
  \<^item> \<open>assert\<close> is a failure \<open>AssertionFailed\<close> (the header is read with assertions
    enabled); a subscript outside its vector, which C++ leaves undefined, is the
    failure \<open>OutOfRange\<close>.
  \<^item> What an invocation takes from its surroundings is a \<open>world\<close> record: the value
    \<open>std::random_device\<close> delivers, the indeterminate initial contents of the
    uninitialised locals \<open>means_a\<close> and \<open>means_b\<close> of \<open>point_collection_epsilon\<close>,
    and three counters that record the effects performed (reads of the entropy
    source, draws from a distribution, assignment/update passes).
\<close>

subsection \<open>Data model\<close>

type_synonym 'a point = "'a list"

datatype error = AssertionFailed | OutOfRange

record 'a platform =
  div_T :: "'a \<Rightarrow> 'a \<Rightarrow> 'a"
  div_size :: "'a \<Rightarrow> nat \<Rightarrow> 'a"
  sqrt_T :: "'a \<Rightarrow> 'a"
  to_float :: "'a \<Rightarrow> real"
  uniform_int_distribution :: "nat \<Rightarrow> nat \<Rightarrow> nat \<Rightarrow> nat \<times> nat"
  discrete_distribution :: "'a list \<Rightarrow> nat \<Rightarrow> nat \<times> nat"

text \<open>
  \<open>div_T x y\<close> is \<open>x / y\<close> at type \<open>T\<close> (\<open>means[i][j] /= count[i]\<close>); \<open>div_size x n\<close> is
  \<open>x /= n\<close> for a \<open>size_t\<close> \<open>n\<close>; \<open>sqrt_T x\<close> is \<open>std::sqrt(x)\<close> converted to \<open>T\<close> by the
  return of \<open>distance\<close>; \<open>to_float\<close> is the conversion of \<open>T\<close> to \<open>float\<close>, a \<open>float\<close>
  being read as the real number it denotes. A distribution takes the state of the
  engine and returns the value drawn and the state of the engine afterwards.
\<close>

record 'a world =
  rand_device :: nat
  stack :: "nat \<Rightarrow> 'a point \<times> 'a point"
  device_reads :: nat
  draws :: nat
  passes :: nat

subsection \<open>Distance metric\<close>

definition distance_squared :: "nat \<Rightarrow> ('a::{zero,plus,minus,times}) point \<Rightarrow> 'a point \<Rightarrow> 'a" where
  "distance_squared N point_a point_b =
     fold (\<lambda>i d_squared. let delta = point_a ! i - point_b ! i in d_squared + delta * delta)
       [0..<N] 0"

definition distance :: "('a::{zero,plus,minus,times}) platform \<Rightarrow> nat \<Rightarrow> 'a point \<Rightarrow> 'a point \<Rightarrow> 'a" where
  "distance P N point_a point_b = sqrt_T P (distance_squared N point_a point_b)"

subsection \<open>Convergence check\<close>

text \<open>
  One of the two accumulation loops of \<open>point_collection_epsilon\<close>: \<open>acc\<close> is the local
  array (\<open>means_a\<close> or \<open>means_b\<close>) as the loop finds it.
\<close>

definition collection_mean :: "('a::plus) platform \<Rightarrow> nat \<Rightarrow> 'a point \<Rightarrow> 'a point list \<Rightarrow> 'a point" where
  "collection_mean P N acc points =
     fold (\<lambda>dim m.
        let m' = fold (\<lambda>pointIndex m. m[dim := m ! dim + points ! pointIndex ! dim])
                   [0..<length points] m
        in m'[dim := div_size P (m' ! dim) (length points)])
       [0..<N] acc"

text \<open>
  \<open>junk\<close> is the pair of initial contents of \<open>means_a\<close> and \<open>means_b\<close>: the source
  declares both without an initialiser and adds to them.
\<close>

definition point_collection_epsilon ::
  "('a::{zero,plus,minus,times}) platform \<Rightarrow> nat \<Rightarrow> 'a point \<times> 'a point \<Rightarrow>
     'a point list \<Rightarrow> 'a point list \<Rightarrow> error + real" where
  "point_collection_epsilon P N junk point_a point_b =
     (if length point_a \<noteq> length point_b then Inl AssertionFailed
      else
        let means_a = collection_mean P N (fst junk) point_a;
            means_b = collection_mean P N (snd junk) point_b
        in Inr (to_float P (distance P N means_a means_b)))"

subsection \<open>Assignment step\<close>

definition closest_mean :: "nat \<Rightarrow> ('a::{zero,plus,minus,times,ord}) point \<Rightarrow> 'a point list \<Rightarrow> error + nat" where
  "closest_mean N point means =
     (if means = [] then Inl AssertionFailed
      else Inr (snd (fold (\<lambda>i (smallest_distance, index).
                        let distance = distance_squared N point (means ! i)
                        in if distance < smallest_distance then (distance, i)
                           else (smallest_distance, index))
                      [1..<length means]
                      (distance_squared N point (means ! 0), 0))))"

fun calculate_clusters :: "nat \<Rightarrow> ('a::{zero,plus,minus,times,ord}) point list \<Rightarrow> 'a point list \<Rightarrow> error + nat list" where
  "calculate_clusters N [] means = Inr []"
| "calculate_clusters N (point # data) means =
     (case closest_mean N point means of
        Inl e \<Rightarrow> Inl e
      | Inr c \<Rightarrow> (case calculate_clusters N data means of
                   Inl e \<Rightarrow> Inl e
                 | Inr clusters \<Rightarrow> Inr (c # clusters)))"

subsection \<open>Mean-update step\<close>

text \<open>A loop whose body can fail: the first failure ends it.\<close>

fun for_each :: "('i \<Rightarrow> 's \<Rightarrow> error + 's) \<Rightarrow> 'i list \<Rightarrow> 's \<Rightarrow> error + 's" where
  "for_each body [] s = Inr s"
| "for_each body (i # is) s =
     (case body i s of Inl e \<Rightarrow> Inl e | Inr s' \<Rightarrow> for_each body is s')"

text \<open>The first loop of \<open>calculate_means\<close>: sums and counts per cluster.\<close>

definition accumulate_point ::
  "nat \<Rightarrow> ('a::{one,plus}) point list \<Rightarrow> nat list \<Rightarrow> nat \<Rightarrow>
     'a point list \<times> 'a list \<Rightarrow> error + 'a point list \<times> 'a list" where
  "accumulate_point N data clusters i s =
     (case s of (means, count) \<Rightarrow>
        if clusters ! i < length means
        then
          let mean = fold (\<lambda>j mean. mean[j := mean ! j + data ! i ! j]) [0..<N]
                       (means ! (clusters ! i))
          in Inr (means[clusters ! i := mean],
                  count[clusters ! i := count ! (clusters ! i) + 1])
        else Inl OutOfRange)"

text \<open>The second loop: an empty cluster keeps its old mean, the others are divided.\<close>

definition finish_mean ::
  "('a::zero) platform \<Rightarrow> nat \<Rightarrow> 'a list \<Rightarrow> 'a point list \<Rightarrow> nat \<Rightarrow>
     'a point list \<Rightarrow> error + 'a point list" where
  "finish_mean P N count old_means i means =
     (if count ! i = 0
      then (if i < length old_means then Inr (means[i := old_means ! i]) else Inl OutOfRange)
      else Inr (means[i := fold (\<lambda>j mean. mean[j := div_T P (mean ! j) (count ! i)]) [0..<N]
                             (means ! i)]))"

definition calculate_means ::
  "('a::{zero,one,plus}) platform \<Rightarrow> nat \<Rightarrow> 'a point list \<Rightarrow> nat list \<Rightarrow> 'a point list \<Rightarrow> nat \<Rightarrow>
     error + 'a point list" where
  "calculate_means P N data clusters old_means k =
     (case for_each (accumulate_point N data clusters)
             [0..<min (length clusters) (length data)]
             (replicate k (replicate N 0), replicate k 0) of
        Inl e \<Rightarrow> Inl e
      | Inr (means, count) \<Rightarrow> for_each (finish_mean P N count old_means) [0..<k] means)"

subsection \<open>Weighted initialiser (k-means++)\<close>

text \<open>
  \<open>std::linear_congruential_engine<uint64_t, 6364136223846793005, 1442695040888963407,
  UINT64_MAX>\<close>: the state is a number below the modulus \<open>2^64 - 1\<close>. The constructor takes
  the \<open>int\<close> seed converted to \<open>uint64_t\<close> and reduces it modulo the modulus (the
  increment is not a multiple of the modulus, so a zero seed is kept).
\<close>

definition lcg_modulus :: nat where
  "lcg_modulus = 2 ^ 64 - 1"

definition lcg_seed :: "int \<Rightarrow> nat" where
  "lcg_seed seed = nat (seed mod 2 ^ 64) mod lcg_modulus"

definition lcg_next :: "nat \<Rightarrow> nat" where
  "lcg_next x = (6364136223846793005 * x + 1442695040888963407) mod lcg_modulus"

text \<open>\<open>seed = rand_device()\<close>: the 32-bit unsigned value converted to \<open>int\<close>.\<close>

definition device_seed :: "nat \<Rightarrow> int" where
  "device_seed v = (if v mod 2 ^ 32 < 2 ^ 31 then int (v mod 2 ^ 32) else int (v mod 2 ^ 32) - 2 ^ 32)"

definition closest_distance ::
  "nat \<Rightarrow> ('a::{zero,plus,minus,times,ord}) point list \<Rightarrow> 'a point list \<Rightarrow> nat \<Rightarrow> error + 'a list" where
  "closest_distance N means data k =
     (if means = [] then Inl OutOfRange
      else Inr (map (\<lambda>d. fold (\<lambda>m closest.
                             let distance = distance_squared N d m
                             in if distance < closest then distance else closest)
                           means (distance_squared N d (means ! 0)))
                  data))"

text \<open>
  The loop \<open>for (count = 1; count < k; ++count)\<close> of \<open>random_plusplus\<close>, by the number of
  rounds still to run. \<open>generator.probabilities().size()\<close> is the number of weights.
\<close>

fun plusplus_rounds ::
  "('a::{zero,plus,minus,times,ord}) platform \<Rightarrow> nat \<Rightarrow> 'a point list \<Rightarrow> nat \<Rightarrow> nat \<Rightarrow>
     'a point list \<Rightarrow> nat \<Rightarrow> 'a world \<Rightarrow> (error + 'a point list) \<times> 'a world" where
  "plusplus_rounds P N data k 0 means rand_engine w = (Inr means, w)"
| "plusplus_rounds P N data k (Suc rounds) means rand_engine w =
     (case closest_distance N means data k of
        Inl e \<Rightarrow> (Inl e, w)
      | Inr distances \<Rightarrow>
          (case discrete_distribution P distances rand_engine of
             (drawn, rand_engine') \<Rightarrow>
               let w' = w\<lparr>draws := draws w + 1\<rparr>;
                   index = (if drawn = length distances then 0 else drawn)
               in if index < length data
                  then plusplus_rounds P N data k rounds (means @ [data ! index]) rand_engine' w'
                  else (Inl OutOfRange, w')))"

definition random_plusplus ::
  "('a::{zero,plus,minus,times,ord}) platform \<Rightarrow> nat \<Rightarrow> 'a point list \<Rightarrow> nat \<Rightarrow> int \<Rightarrow>
     'a world \<Rightarrow> (error + 'a point list) \<times> 'a world" where
  "random_plusplus P N data k defaultSeed w =
     (if \<not> k > 0 then (Inl AssertionFailed, w)
      else
        case (if defaultSeed = - 1
              then (device_seed (rand_device w), w\<lparr>device_reads := device_reads w + 1\<rparr>)
              else (defaultSeed, w)) of
          (seed, w1) \<Rightarrow>
            (case uniform_int_distribution P 0 ((length data + 2 ^ 64 - 1) mod 2 ^ 64) (lcg_seed seed) of
               (index, rand_engine) \<Rightarrow>
                 let w2 = w1\<lparr>draws := draws w1 + 1\<rparr>
                 in if index < length data
                    then plusplus_rounds P N data k (k - 1) [data ! index] rand_engine w2
                    else (Inl OutOfRange, w2)))"

subsection \<open>Driver (Lloyd's algorithm)\<close>

text \<open>
  The \<open>do ... while\<close> loop of \<open>kmeans_lloyd\<close>, entered with the current \<open>means\<close> and
  \<open>count\<close>. The convergence check of the pass that makes \<open>count\<close> equal to \<open>n\<close> finds
  \<open>stack w n\<close> in its uninitialised locals.
\<close>

function lloyd_loop ::
  "('a::{zero,one,plus,minus,times,ord}) platform \<Rightarrow> nat \<Rightarrow> 'a point list \<Rightarrow> nat \<Rightarrow> int \<Rightarrow> real \<Rightarrow>
     'a point list \<Rightarrow> int \<Rightarrow> 'a world \<Rightarrow> (error + 'a point list \<times> nat list) \<times> 'a world" where
  "lloyd_loop P N data k maxIter epsilon means count w =
     (case calculate_clusters N data means of
        Inl e \<Rightarrow> (Inl e, w)
      | Inr clusters \<Rightarrow>
          (case calculate_means P N data clusters means k of
             Inl e \<Rightarrow> (Inl e, w)
           | Inr means' \<Rightarrow>
               let count' = count + 1;
                   w' = w\<lparr>passes := passes w + 1\<rparr>
               in (case point_collection_epsilon P N (stack w (nat count')) means' means of
                     Inl e \<Rightarrow> (Inl e, w')
                   | Inr shift \<Rightarrow>
                       if shift > epsilon \<and> count' < maxIter
                       then lloyd_loop P N data k maxIter epsilon means' count' w'
                       else (Inr (means', clusters), w'))))"
  by pat_completeness auto
termination
  by (relation "measure (\<lambda>(P, N, data, k, maxIter, epsilon, means, count, w). nat (maxIter - count))") auto

declare lloyd_loop.simps [simp del]

definition kmeans_lloyd ::
  "('a::{zero,one,plus,minus,times,ord}) platform \<Rightarrow> nat \<Rightarrow> 'a point list \<Rightarrow> nat \<Rightarrow> int \<Rightarrow> int \<Rightarrow> real \<Rightarrow>
     'a world \<Rightarrow> (error + 'a point list \<times> nat list) \<times> 'a world" where
  "kmeans_lloyd P N data k maxIter seed epsilon w =
     (if \<not> k > 0 then (Inl AssertionFailed, w)
      else if \<not> maxIter > 0 then (Inl AssertionFailed, w)
      else if \<not> length data \<ge> k then (Inl AssertionFailed, w)
      else
        case random_plusplus P N data k seed w of
          (Inl e, w1) \<Rightarrow> (Inl e, w1)
        | (Inr means, w1) \<Rightarrow> lloyd_loop P N data k maxIter epsilon means 0 w1)"

text \<open>
  The declaration gives the last two parameters default arguments,
  \<open>int seed = -1, float epsilon = 0.0f\<close>: a call that leaves one out passes the default.
\<close>

definition kmeans_lloyd_call ::
  "('a::{zero,one,plus,minus,times,ord}) platform \<Rightarrow> nat \<Rightarrow> 'a point list \<Rightarrow> nat \<Rightarrow> int \<Rightarrow>
     int option \<Rightarrow> real option \<Rightarrow> 'a world \<Rightarrow> (error + 'a point list \<times> nat list) \<times> 'a world" where
  "kmeans_lloyd_call P N data k maxIter seed epsilon =
     kmeans_lloyd P N data k maxIter
       (case seed of None \<Rightarrow> - 1 | Some s \<Rightarrow> s)
       (case epsilon of None \<Rightarrow> 0 | Some e \<Rightarrow> e)"

subsection \<open>An instantiation: \<open>T = int\<close>\<close>

text \<open>
  The concrete runs below instantiate the template at \<open>T = int\<close> (32 bits, with a 64-bit
  \<open>size_t\<close>), compiled against GCC's libstdc++. Division of two \<open>int\<close>s truncates towards zero. In \<open>x /= n\<close> with a
  \<open>size_t\<close> \<open>n\<close> the \<open>int\<close> is converted to \<open>size_t\<close>, divided there, and the quotient
  converted back. \<open>std::sqrt\<close> of an \<open>int\<close> returns a \<open>double\<close>, which the return of
  \<open>distance\<close> truncates.
\<close>

definition int_div :: "int \<Rightarrow> int \<Rightarrow> int" where
  "int_div x y = (if (x < 0) = (y < 0) then \<bar>x\<bar> div \<bar>y\<bar> else - (\<bar>x\<bar> div \<bar>y\<bar>))"

definition to_int32 :: "int \<Rightarrow> int" where
  "to_int32 v = (if v mod 2 ^ 32 < 2 ^ 31 then v mod 2 ^ 32 else v mod 2 ^ 32 - 2 ^ 32)"

definition int_div_size :: "int \<Rightarrow> nat \<Rightarrow> int" where
  "int_div_size x n = to_int32 ((x mod 2 ^ 64) div int n)"

fun sqrt_search :: "nat \<Rightarrow> nat \<Rightarrow> nat" where
  "sqrt_search x 0 = 0"
| "sqrt_search x (Suc r) = (if Suc r * Suc r \<le> x then Suc r else sqrt_search x r)"

definition int_sqrt :: "int \<Rightarrow> int" where
  "int_sqrt x = int (sqrt_search (nat x) (nat x))"

text \<open>
  The two distributions are those of GCC's libstdc++, whose runs the concrete results
  below follow. The engine's outputs range from \<open>min() = 0\<close> to \<open>max() = 2^64 - 2\<close>.

  \<open>std::uniform_int_distribution<size_t>(a, b)\<close>, for \<open>a \<le> b\<close>: when the range asked
  for is narrower than the engine's, outputs are drawn until one falls below the largest
  multiple of the range's size, and that one is divided by the scaling factor; when it
  is wider, a high part is drawn over the quotient of the two ranges (a narrower range)
  and a low part added, until the sum neither exceeds the range nor wraps around 64
  bits; when both are equal the output is the result. Each loop may, for all the code
  says, run forever: it has the value \<open>None\<close> then.
\<close>

definition urngrange :: nat where
  "urngrange = lcg_modulus - 1"

partial_function (option) draw_below :: "nat \<Rightarrow> nat \<Rightarrow> (nat \<times> nat) option" where
  "draw_below past g =
     (if lcg_next g \<ge> past then draw_below past (lcg_next g)
      else Some (lcg_next g, lcg_next g))"

definition downscaling :: "nat \<Rightarrow> nat \<Rightarrow> (nat \<times> nat) option" where
  "downscaling urange g =
     (let uerange = urange + 1;
          scaling = urngrange div uerange;
          past = uerange * scaling
      in map_option (\<lambda>(ret, g'). (ret div scaling, g')) (draw_below past g))"

partial_function (option) upscaling :: "nat \<Rightarrow> nat \<Rightarrow> (nat \<times> nat) option" where
  "upscaling urange g =
     Option.bind (downscaling (urange div (urngrange + 1)) g)
       (\<lambda>(high, g1).
          if ((urngrange + 1) * high + lcg_next g1) mod 2 ^ 64 > urange \<or>
             ((urngrange + 1) * high + lcg_next g1) mod 2 ^ 64 < ((urngrange + 1) * high) mod 2 ^ 64
          then upscaling urange (lcg_next g1)
          else Some (((urngrange + 1) * high + lcg_next g1) mod 2 ^ 64, lcg_next g1))"

definition libstdcxx_uniform_int :: "nat \<Rightarrow> nat \<Rightarrow> nat \<Rightarrow> (nat \<times> nat) option" where
  "libstdcxx_uniform_int a b g =
     map_option (\<lambda>(ret, g'). (ret + a, g'))
       (if urngrange > b - a then downscaling (b - a) g
        else if urngrange < b - a then upscaling (b - a) g
        else Some (lcg_next g, lcg_next g))"

text \<open>
  \<open>std::discrete_distribution<size_t>\<close> over the weights \<open>w\<close>: with fewer than two
  weights it returns \<open>0\<close> and draws nothing. Otherwise it draws \<open>p\<close>, the next output
  divided by the size \<open>2^64 - 1\<close> of the engine's range, and returns the first index
  whose cumulative probability \<open>(w\<^sub>0 + ... + w\<^sub>i) / (w\<^sub>0 + ... + w\<^sub>n\<^sub>-\<^sub>1)\<close> is not below
  \<open>p\<close>, the last cumulative probability being set to \<open>1\<close>. The library computes in
  \<open>double\<close>; the comparison is made here on the exact quotients, cross-multiplied, the
  weights being squared distances and so not negative. Weights that sum to \<open>0\<close> give the
  library cumulative probabilities that are not numbers, none of which is below \<open>p\<close>: the
  index is \<open>0\<close>, as it is for the cross-multiplied comparison.
\<close>

fun lower_bound_cum :: "int list \<Rightarrow> int \<Rightarrow> int \<Rightarrow> nat" where
  "lower_bound_cum [] acc target = 0"
| "lower_bound_cum (w # ws) acc target =
     (if target \<le> (acc + w) * int lcg_modulus then 0
      else Suc (lower_bound_cum ws (acc + w) target))"

definition libstdcxx_discrete :: "int list \<Rightarrow> nat \<Rightarrow> nat \<times> nat" where
  "libstdcxx_discrete weights g =
     (if length weights < 2 then (0, g)
      else (min (length weights - 1)
              (lower_bound_cum weights 0 (int (lcg_next g) * sum_list weights)),
            lcg_next g))"

text \<open>
  A field of the \<open>platform\<close> is a function that returns. Where the library's loop does not
  end there is nothing to return, and the field is given the lower bound and the engine
  as it was.
\<close>

definition returning :: "nat \<Rightarrow> nat \<Rightarrow> nat \<Rightarrow> nat \<times> nat" where
  "returning a b g = (case libstdcxx_uniform_int a b g of None \<Rightarrow> (a, g) | Some r \<Rightarrow> r)"

definition int_platform :: "int platform" where
  "int_platform =
     \<lparr>div_T = int_div, div_size = int_div_size, sqrt_T = int_sqrt, to_float = real_of_int,
      uniform_int_distribution = returning, discrete_distribution = libstdcxx_discrete\<rparr>"

text \<open>
  A second instantiation, \<open>T = signed char\<close>, its values being the 8-bit words: sums and
  counts wrap around. Division, square root and the conversions go through the value
  read as a signed integer. Only the mean update is run at this type: it compares
  nothing, and the order of HOL's words, which is the unsigned one, plays no part.
\<close>

definition char_platform :: "8 word platform" where
  "char_platform =
     \<lparr>div_T = (\<lambda>x y. word_of_int (int_div (sint x) (sint y))),
      div_size = (\<lambda>x n. word_of_int ((sint x mod 2 ^ 64) div int n)),
      sqrt_T = (\<lambda>x. word_of_int (int_sqrt (sint x))),
      to_float = (\<lambda>x. real_of_int (sint x)),
      uniform_int_distribution = returning,
      discrete_distribution = (\<lambda>weights. libstdcxx_discrete (map sint weights))\<rparr>"

text \<open>A world whose uninitialised locals happen to hold \<open>junk\<close> at every check.\<close>

definition world0 :: "nat \<Rightarrow> 'a point \<times> 'a point \<Rightarrow> 'a world" where
  "world0 entropy junk =
     \<lparr>rand_device = entropy, stack = (\<lambda>n. junk), device_reads = 0, draws = 0, passes = 0\<rparr>"

subsection \<open>Notions of the specification\<close>

text \<open>
  The running minimum of the assignment step after the means \<open>0..n\<close>: the smallest
  distance seen and the index that gave it.
\<close>

definition scan_min :: "(nat \<Rightarrow> 'a::ord) \<Rightarrow> nat \<Rightarrow> 'a \<times> nat" where
  "scan_min d n =
     fold (\<lambda>i (s, ix). if d i < s then (d i, i) else (s, ix)) [1..<Suc n] (d 0, 0)"

text \<open>
  What the C++ standard promises of the two distributions: a uniform draw lies between
  its bounds. A weighted draw over \<open>n\<close> weights lies below \<open>n\<close>; the value \<open>n\<close> itself
  is admitted, being the one the source guards against.
\<close>

definition conforming :: "'a platform \<Rightarrow> bool" where
  "conforming P \<longleftrightarrow>
     (\<forall>lo hi g. lo \<le> hi \<longrightarrow>
        lo \<le> fst (uniform_int_distribution P lo hi g) \<and>
        fst (uniform_int_distribution P lo hi g) \<le> hi) \<and>
     (\<forall>weights g. fst (discrete_distribution P weights g) \<le> length weights)"

text \<open>
  The centroid of a set of means, and the mean-shift scalar of the specification: the
  distance between the centroids of two sets of means.
\<close>

definition centroid :: "('a::{zero,plus}) platform \<Rightarrow> nat \<Rightarrow> 'a point list \<Rightarrow> 'a point" where
  "centroid P N points =
     map (\<lambda>dim. div_size P (fold (\<lambda>p s. s + p ! dim) points 0) (length points)) [0..<N]"

definition mean_shift ::
  "('a::{zero,plus,minus,times}) platform \<Rightarrow> nat \<Rightarrow> 'a point list \<Rightarrow> 'a point list \<Rightarrow> real" where
  "mean_shift P N point_a point_b =
     to_float P (distance P N (centroid P N point_a) (centroid P N point_b))"

text \<open>
  The dataset points assigned to cluster \<open>c\<close>, over the common length of the assignment
  and the dataset.
\<close>

definition cluster_members :: "nat list \<Rightarrow> 'a point list \<Rightarrow> nat \<Rightarrow> 'a point list" where
  "cluster_members clusters data c =
     map (\<lambda>i. data ! i)
       (filter (\<lambda>i. clusters ! i = c) [0..<min (length clusters) (length data)])"

text \<open>One pass of the loop on the means alone, and the means after \<open>n\<close> passes.\<close>

definition lloyd_pass ::
  "('a::{zero,one,plus,minus,times,ord}) platform \<Rightarrow> nat \<Rightarrow> 'a point list \<Rightarrow> nat \<Rightarrow>
     'a point list \<Rightarrow> error + 'a point list" where
  "lloyd_pass P N data k means =
     (case calculate_clusters N data means of
        Inl e \<Rightarrow> Inl e
      | Inr clusters \<Rightarrow> calculate_means P N data clusters means k)"

fun means_after ::
  "('a::{zero,one,plus,minus,times,ord}) platform \<Rightarrow> nat \<Rightarrow> 'a point list \<Rightarrow> nat \<Rightarrow>
     'a point list \<Rightarrow> nat \<Rightarrow> error + 'a point list" where
  "means_after P N data k means 0 = Inr means"
| "means_after P N data k means (Suc n) =
     (case lloyd_pass P N data k means of
        Inl e \<Rightarrow> Inl e
      | Inr means' \<Rightarrow> means_after P N data k means' n)"

section \<open>Properties of the steps\<close>

subsection \<open>The running minimum of the assignment step\<close>

lemma scan_min_0: "scan_min d 0 = (d 0, 0)"
  by (simp add: scan_min_def)

lemma scan_min_Suc:
  "scan_min d (Suc n) =
     (case scan_min d n of (s, ix) \<Rightarrow> if d (Suc n) < s then (d (Suc n), Suc n) else (s, ix))"
  by (simp add: scan_min_def)

lemma scan_min_bound: "snd (scan_min d n) \<le> n"
  by (induction n) (auto simp: scan_min_0 scan_min_Suc split: prod.splits)

lemma scan_min_value: "fst (scan_min d n) = d (snd (scan_min d n))"
  by (induction n) (auto simp: scan_min_0 scan_min_Suc split: prod.splits)

lemma scan_min_least:
  fixes d :: "nat \<Rightarrow> 'a::linorder"
  shows "j \<le> n \<Longrightarrow> d (snd (scan_min d n)) \<le> d j"
proof (induction n)
  case 0
  then show ?case by (simp add: scan_min_0)
next
  case (Suc n)
  obtain s ix where eq: "scan_min d n = (s, ix)" by (cases "scan_min d n")
  have s: "s = d ix" using scan_min_value [of d n] eq by simp
  show ?case
  proof (cases "j = Suc n")
    case True
    then show ?thesis using eq s by (auto simp: scan_min_Suc not_less)
  next
    case False
    then have "j \<le> n" using Suc.prems by simp
    then have "d ix \<le> d j" using Suc.IH eq by simp
    then show ?thesis using eq s by (auto simp: scan_min_Suc)
  qed
qed

lemma scan_min_first:
  fixes d :: "nat \<Rightarrow> 'a::linorder"
  shows "j < snd (scan_min d n) \<Longrightarrow> d (snd (scan_min d n)) < d j"
proof (induction n)
  case 0
  then show ?case by (simp add: scan_min_0)
next
  case (Suc n)
  obtain s ix where eq: "scan_min d n = (s, ix)" by (cases "scan_min d n")
  have s: "s = d ix" using scan_min_value [of d n] eq by simp
  have b: "ix \<le> n" using scan_min_bound [of d n] eq by simp
  show ?case
  proof (cases "d (Suc n) < s")
    case True
    have "j \<le> n" using Suc.prems eq True by (simp add: scan_min_Suc)
    then have "d ix \<le> d j" using scan_min_least [of j n d] eq by simp
    then show ?thesis using True eq s by (simp add: scan_min_Suc)
  next
    case False
    then show ?thesis using Suc eq by (simp add: scan_min_Suc)
  qed
qed

lemma closest_mean_scan:
  "means \<noteq> [] \<Longrightarrow>
   closest_mean N point means =
     Inr (snd (scan_min (\<lambda>i. distance_squared N point (means ! i)) (length means - 1)))"
  by (cases means) (simp_all add: closest_mean_def scan_min_def Let_def)

subsection \<open>The loops of the mean update\<close>

lemma calculate_clusters_eq:
  "means \<noteq> [] \<Longrightarrow>
   calculate_clusters N data means =
     Inr (map (\<lambda>point. snd (scan_min (\<lambda>i. distance_squared N point (means ! i)) (length means - 1))) data)"
  by (induction data) (simp_all add: closest_mean_scan)

lemma fold_update_prefix:
  "n \<le> length m \<Longrightarrow>
   fold (\<lambda>j mean. mean[j := f j (mean ! j)]) [0..<n] m = map (\<lambda>j. f j (m ! j)) [0..<n] @ drop n m"
proof (induction n)
  case 0
  then show ?case by simp
next
  case (Suc n)
  then have n: "n < length m" by simp
  have "fold (\<lambda>j mean. mean[j := f j (mean ! j)]) [0..<Suc n] m =
        (map (\<lambda>j. f j (m ! j)) [0..<n] @ drop n m)[n := f n ((map (\<lambda>j. f j (m ! j)) [0..<n] @ drop n m) ! n)]"
    using Suc by simp
  also have "(map (\<lambda>j. f j (m ! j)) [0..<n] @ drop n m) ! n = m ! n"
    using n by (simp add: nth_append)
  also have "(map (\<lambda>j. f j (m ! j)) [0..<n] @ drop n m)[n := f n (m ! n)] =
        map (\<lambda>j. f j (m ! j)) [0..<n] @ (drop n m)[0 := f n (m ! n)]"
    by (simp add: list_update_append)
  also have "(drop n m)[0 := f n (m ! n)] = f n (m ! n) # drop (Suc n) m"
    using n by (simp add: Cons_nth_drop_Suc [symmetric])
  finally show ?case by simp
qed

lemma fold_update_map:
  "length m = N \<Longrightarrow>
   fold (\<lambda>j mean. mean[j := f j (mean ! j)]) [0..<N] m = map (\<lambda>j. f j (m ! j)) [0..<N]"
  using fold_update_prefix [of N m f] by simp

lemma for_each_accumulate:
  assumes "\<forall>i\<in>set is. clusters ! i < length means" and "length count = length means"
  shows "\<exists>means' count'.
           for_each (accumulate_point N data clusters) is (means, count) = Inr (means', count') \<and>
           length means' = length means \<and> length count' = length means \<and>
           (\<forall>c<length means.
              means' ! c =
                fold (\<lambda>i m. fold (\<lambda>j mean. mean[j := mean ! j + data ! i ! j]) [0..<N] m)
                  (filter (\<lambda>i. clusters ! i = c) is) (means ! c) \<and>
              count' ! c = fold (\<lambda>i n. n + 1) (filter (\<lambda>i. clusters ! i = c) is) (count ! c))"
  using assms
proof (induction "is" arbitrary: means count)
  case Nil
  then show ?case by simp
next
  case (Cons i "is")
  let ?c = "clusters ! i"
  let ?mean = "fold (\<lambda>j mean. mean[j := mean ! j + data ! i ! j]) [0..<N] (means ! ?c)"
  let ?means = "means[?c := ?mean]"
  let ?count = "count[?c := count ! ?c + 1]"
  have c: "?c < length means" using Cons.prems by simp
  have step: "accumulate_point N data clusters i (means, count) = Inr (?means, ?count)"
    using c by (simp add: accumulate_point_def)
  have "\<forall>i\<in>set is. clusters ! i < length ?means" using Cons.prems by simp
  moreover have "length ?count = length ?means" using Cons.prems by simp
  ultimately obtain means' count' where
    r: "for_each (accumulate_point N data clusters) is (?means, ?count) = Inr (means', count')"
    and l: "length means' = length ?means" "length count' = length ?means"
    and v: "\<forall>c<length ?means.
              means' ! c =
                fold (\<lambda>i m. fold (\<lambda>j mean. mean[j := mean ! j + data ! i ! j]) [0..<N] m)
                  (filter (\<lambda>i. clusters ! i = c) is) (?means ! c) \<and>
              count' ! c = fold (\<lambda>i n. n + 1) (filter (\<lambda>i. clusters ! i = c) is) (?count ! c)"
    using Cons.IH [of ?means ?count] by blast
  have "for_each (accumulate_point N data clusters) (i # is) (means, count) = Inr (means', count')"
    using step r by simp
  moreover have "\<forall>c<length means.
              means' ! c =
                fold (\<lambda>i m. fold (\<lambda>j mean. mean[j := mean ! j + data ! i ! j]) [0..<N] m)
                  (filter (\<lambda>i. clusters ! i = c) (i # is)) (means ! c) \<and>
              count' ! c = fold (\<lambda>i n. n + 1) (filter (\<lambda>i. clusters ! i = c) (i # is)) (count ! c)"
  proof (intro allI impI)
    fix c assume cl: "c < length means"
    show "means' ! c =
                fold (\<lambda>i m. fold (\<lambda>j mean. mean[j := mean ! j + data ! i ! j]) [0..<N] m)
                  (filter (\<lambda>i. clusters ! i = c) (i # is)) (means ! c) \<and>
              count' ! c = fold (\<lambda>i n. n + 1) (filter (\<lambda>i. clusters ! i = c) (i # is)) (count ! c)"
    proof (cases "?c = c")
      case True
      then show ?thesis using v cl Cons.prems(2) by auto
    next
      case False
      then show ?thesis using v cl by auto
    qed
  qed
  ultimately show ?case using l by auto
qed

lemma for_each_finish:
  assumes "distinct is"
    and "\<forall>i\<in>set is. i < length means \<and> (count ! i = 0 \<longrightarrow> i < length old_means)"
  shows "\<exists>means'.
           for_each (finish_mean P N count old_means) is means = Inr means' \<and>
           length means' = length means \<and>
           (\<forall>c<length means.
              means' ! c =
                (if c \<in> set is
                 then (if count ! c = 0 then old_means ! c
                       else fold (\<lambda>j mean. mean[j := div_T P (mean ! j) (count ! c)]) [0..<N] (means ! c))
                 else means ! c))"
  using assms
proof (induction "is" arbitrary: means)
  case Nil
  then show ?case by simp
next
  case (Cons i "is")
  let ?m = "(if count ! i = 0 then old_means ! i
             else fold (\<lambda>j mean. mean[j := div_T P (mean ! j) (count ! i)]) [0..<N] (means ! i))"
  have step: "finish_mean P N count old_means i means = Inr (means[i := ?m])"
    using Cons.prems by (simp add: finish_mean_def)
  have "distinct is" using Cons.prems by simp
  moreover have "\<forall>j\<in>set is. j < length (means[i := ?m]) \<and> (count ! j = 0 \<longrightarrow> j < length old_means)"
    using Cons.prems by simp
  ultimately obtain means' where
    r: "for_each (finish_mean P N count old_means) is (means[i := ?m]) = Inr means'"
    and l: "length means' = length (means[i := ?m])"
    and v: "\<forall>c<length (means[i := ?m]).
              means' ! c =
                (if c \<in> set is
                 then (if count ! c = 0 then old_means ! c
                       else fold (\<lambda>j mean. mean[j := div_T P (mean ! j) (count ! c)]) [0..<N] ((means[i := ?m]) ! c))
                 else (means[i := ?m]) ! c)"
    using Cons.IH [of "means[i := ?m]"] by blast
  have "for_each (finish_mean P N count old_means) (i # is) means = Inr means'"
    using step r by simp
  moreover have "\<forall>c<length means.
              means' ! c =
                (if c \<in> set (i # is)
                 then (if count ! c = 0 then old_means ! c
                       else fold (\<lambda>j mean. mean[j := div_T P (mean ! j) (count ! c)]) [0..<N] (means ! c))
                 else means ! c)"
  proof (intro allI impI)
    fix c assume cl: "c < length means"
    show "means' ! c =
                (if c \<in> set (i # is)
                 then (if count ! c = 0 then old_means ! c
                       else fold (\<lambda>j mean. mean[j := div_T P (mean ! j) (count ! c)]) [0..<N] (means ! c))
                 else means ! c)"
    proof (cases "c = i")
      case True
      then have "c \<notin> set is" using Cons.prems by simp
      then show ?thesis using v cl True by simp
    next
      case False
      then show ?thesis using v cl by simp
    qed
  qed
  ultimately show ?case using l by auto
qed

subsection \<open>What the mean update computes\<close>

lemma fold_add_points:
  fixes m :: "('a::monoid_add) list"
  shows "length m = N \<Longrightarrow>
   fold (\<lambda>i m. fold (\<lambda>j mean. mean[j := mean ! j + data ! i ! j]) [0..<N] m) sel m =
     map (\<lambda>j. m ! j + sum_list (map (\<lambda>i. data ! i ! j) sel)) [0..<N]"
proof (induction sel arbitrary: m)
  case Nil
  then show ?case using map_nth [of m] by simp
next
  case (Cons i sel)
  let ?m = "map (\<lambda>j. m ! j + data ! i ! j) [0..<N]"
  have "fold (\<lambda>j mean. mean[j := mean ! j + data ! i ! j]) [0..<N] m = ?m"
    using Cons.prems fold_update_map [of m N "\<lambda>j x. x + data ! i ! j"] by simp
  moreover have "length ?m = N" by simp
  ultimately show ?case using Cons.IH [of ?m] by (simp add: add.assoc)
qed

lemma fold_count:
  fixes a :: "'a::semiring_1"
  shows "fold (\<lambda>i n. n + 1) sel a = a + of_nat (length sel)"
  by (induction sel arbitrary: a) (simp_all add: add.assoc add.commute)

lemma calculate_means_char:
  fixes P :: "('a::{zero,one,plus}) platform"
  assumes "\<forall>i<min (length clusters) (length data). clusters ! i < k"
    and "k \<le> length old_means"
  shows "\<exists>means.
     calculate_means P N data clusters old_means k = Inr means \<and> length means = k \<and>
     (\<forall>c<k. means ! c =
        (let sel = filter (\<lambda>i. clusters ! i = c) [0..<min (length clusters) (length data)];
             total = fold (\<lambda>i m. fold (\<lambda>j mean. mean[j := mean ! j + data ! i ! j]) [0..<N] m)
                       sel (replicate N 0);
             tally = fold (\<lambda>i n. n + 1) sel 0
         in if tally = 0 then old_means ! c
            else fold (\<lambda>j mean. mean[j := div_T P (mean ! j) tally]) [0..<N] total))"
proof -
  let ?is = "[0..<min (length clusters) (length data)]"
  let ?means0 = "replicate k (replicate N (0::'a))"
  let ?count0 = "replicate k (0::'a)"
  have "\<forall>i\<in>set ?is. clusters ! i < length ?means0" using assms(1) by simp
  moreover have "length ?count0 = length ?means0" by simp
  ultimately obtain totals count where
    a: "for_each (accumulate_point N data clusters) ?is (?means0, ?count0) = Inr (totals, count)"
    and la: "length totals = length ?means0" "length count = length ?means0"
    and va: "\<forall>c<length ?means0.
              totals ! c =
                fold (\<lambda>i m. fold (\<lambda>j mean. mean[j := mean ! j + data ! i ! j]) [0..<N] m)
                  (filter (\<lambda>i. clusters ! i = c) ?is) (?means0 ! c) \<and>
              count ! c = fold (\<lambda>i n. n + 1) (filter (\<lambda>i. clusters ! i = c) ?is) (?count0 ! c)"
    using for_each_accumulate [of ?is clusters ?means0 ?count0 N data] by blast
  have "distinct [0..<k]" by simp
  moreover have "\<forall>i\<in>set [0..<k]. i < length totals \<and> (count ! i = 0 \<longrightarrow> i < length old_means)"
    using la assms(2) by simp
  ultimately obtain means where
    f: "for_each (finish_mean P N count old_means) [0..<k] totals = Inr means"
    and lf: "length means = length totals"
    and vf: "\<forall>c<length totals.
              means ! c =
                (if c \<in> set [0..<k]
                 then (if count ! c = 0 then old_means ! c
                       else fold (\<lambda>j mean. mean[j := div_T P (mean ! j) (count ! c)]) [0..<N] (totals ! c))
                 else totals ! c)"
    using for_each_finish [of "[0..<k]" totals count old_means P N] by blast
  have "calculate_means P N data clusters old_means k = Inr means"
    using a f by (simp add: calculate_means_def)
  moreover have "length means = k" using lf la by simp
  moreover have "\<forall>c<k. means ! c =
        (let sel = filter (\<lambda>i. clusters ! i = c) ?is;
             total = fold (\<lambda>i m. fold (\<lambda>j mean. mean[j := mean ! j + data ! i ! j]) [0..<N] m)
                       sel (replicate N 0);
             tally = fold (\<lambda>i n. n + 1) sel 0
         in if tally = 0 then old_means ! c
            else fold (\<lambda>j mean. mean[j := div_T P (mean ! j) tally]) [0..<N] total)"
    using va vf la by (simp add: Let_def)
  ultimately show ?thesis by blast
qed

lemma calculate_means_length:
  fixes P :: "('a::{zero,one,plus}) platform"
  assumes "\<forall>i<min (length clusters) (length data). clusters ! i < k"
    and "k \<le> length old_means"
  shows "\<exists>means. calculate_means P N data clusters old_means k = Inr means \<and> length means = k"
  using calculate_means_char [OF assms, of P N] by blast

lemma sum_members:
  "sum_list (map (\<lambda>i. data ! i ! j) (filter (\<lambda>i. clusters ! i = c) [0..<min (length clusters) (length data)])) =
   sum_list (map (\<lambda>p. p ! j) (cluster_members clusters data c))"
  by (simp add: cluster_members_def comp_def)

lemma calculate_means_average:
  fixes P :: "('a::semiring_1) platform"
  assumes "\<forall>i<min (length clusters) (length data). clusters ! i < k"
    and "length old_means = k"
    and "c < k"
    and "of_nat (length (cluster_members clusters data c)) \<noteq> (0::'a)"
  shows "\<exists>means.
     calculate_means P N data clusters old_means k = Inr means \<and>
     means ! c =
       map (\<lambda>j. div_T P (sum_list (map (\<lambda>p. p ! j) (cluster_members clusters data c)))
                   (of_nat (length (cluster_members clusters data c))))
         [0..<N]"
proof -
  let ?sel = "filter (\<lambda>i. clusters ! i = c) [0..<min (length clusters) (length data)]"
  let ?total = "fold (\<lambda>i m. fold (\<lambda>j mean. mean[j := mean ! j + data ! i ! j]) [0..<N] m)
                       ?sel (replicate N (0::'a))"
  let ?tally = "fold (\<lambda>i n. n + 1) ?sel (0::'a)"
  have k: "k \<le> length old_means" using assms(2) by simp
  obtain means where
    r: "calculate_means P N data clusters old_means k = Inr means"
    and v: "\<forall>c<k. means ! c =
        (let sel = filter (\<lambda>i. clusters ! i = c) [0..<min (length clusters) (length data)];
             total = fold (\<lambda>i m. fold (\<lambda>j mean. mean[j := mean ! j + data ! i ! j]) [0..<N] m)
                       sel (replicate N 0);
             tally = fold (\<lambda>i n. n + 1) sel 0
         in if tally = 0 then old_means ! c
            else fold (\<lambda>j mean. mean[j := div_T P (mean ! j) tally]) [0..<N] total)"
    using calculate_means_char [OF assms(1) k, of P N] by blast
  have len: "length ?sel = length (cluster_members clusters data c)"
    by (simp add: cluster_members_def)
  have tally: "?tally = of_nat (length (cluster_members clusters data c))"
    by (simp add: fold_count len)
  have nz: "?tally \<noteq> 0" using assms(4) tally by simp
  have total: "?total = map (\<lambda>j. sum_list (map (\<lambda>p. p ! j) (cluster_members clusters data c))) [0..<N]"
    using fold_add_points [of "replicate N (0::'a)" N data ?sel] by (simp add: sum_members)
  have "means ! c = fold (\<lambda>j mean. mean[j := div_T P (mean ! j) ?tally]) [0..<N] ?total"
    using v assms(3) nz by (simp add: Let_def)
  also have "\<dots> = map (\<lambda>j. div_T P (?total ! j) ?tally) [0..<N]"
    using fold_update_map [of ?total N "\<lambda>j x. div_T P x ?tally"] total by simp
  also have "\<dots> = map (\<lambda>j. div_T P (sum_list (map (\<lambda>p. p ! j) (cluster_members clusters data c)))
                   (of_nat (length (cluster_members clusters data c)))) [0..<N]"
    using total tally by simp
  finally show ?thesis using r by blast
qed

lemma calculate_means_empty:
  fixes P :: "('a::{zero,one,plus}) platform"
  assumes "\<forall>i<min (length clusters) (length data). clusters ! i < k"
    and "length old_means = k"
    and "c < k"
    and "\<forall>i<min (length clusters) (length data). clusters ! i \<noteq> c"
  shows "\<exists>means.
     calculate_means P N data clusters old_means k = Inr means \<and> means ! c = old_means ! c"
proof -
  have k: "k \<le> length old_means" using assms(2) by simp
  have sel: "filter (\<lambda>i. clusters ! i = c) [0..<min (length clusters) (length data)] = []"
    using assms(4) by (simp add: filter_empty_conv)
  obtain means where
    r: "calculate_means P N data clusters old_means k = Inr means"
    and v: "\<forall>c<k. means ! c =
        (let sel = filter (\<lambda>i. clusters ! i = c) [0..<min (length clusters) (length data)];
             total = fold (\<lambda>i m. fold (\<lambda>j mean. mean[j := mean ! j + data ! i ! j]) [0..<N] m)
                       sel (replicate N 0);
             tally = fold (\<lambda>i n. n + 1) sel 0
         in if tally = 0 then old_means ! c
            else fold (\<lambda>j mean. mean[j := div_T P (mean ! j) tally]) [0..<N] total)"
    using calculate_means_char [OF assms(1) k, of P N] by blast
  have "means ! c = old_means ! c" using v assms(3) sel by (simp add: Let_def)
  then show ?thesis using r by blast
qed

subsection \<open>The convergence check\<close>

lemma fold_indices:
  "fold (\<lambda>i s. g (xs ! i) s) [0..<length xs] a = fold g xs a"
proof -
  have "fold g (map (\<lambda>i. xs ! i) [0..<length xs]) a = fold (\<lambda>i s. g (xs ! i) s) [0..<length xs] a"
    by (simp add: fold_map comp_def)
  then show ?thesis by (simp add: map_nth)
qed

lemma fold_one_component:
  "d < length m \<Longrightarrow>
   fold (\<lambda>pointIndex m. m[d := m ! d + points ! pointIndex ! d]) is m =
     m[d := fold (\<lambda>pointIndex s. s + points ! pointIndex ! d) is (m ! d)]"
  by (induction "is" arbitrary: m) simp_all

lemma collection_mean_eq:
  assumes "length acc = N"
  shows "collection_mean P N acc points =
     map (\<lambda>dim. div_size P (fold (\<lambda>p s. s + p ! dim) points (acc ! dim)) (length points)) [0..<N]"
proof -
  let ?f = "\<lambda>dim x. div_size P (fold (\<lambda>p s. s + p ! dim) points x) (length points)"
  have body: "(\<lambda>dim m.
        let m' = fold (\<lambda>pointIndex m. m[dim := m ! dim + points ! pointIndex ! dim])
                   [0..<length points] m
        in m'[dim := div_size P (m' ! dim) (length points)]) =
      (\<lambda>dim m. m[dim := ?f dim (m ! dim)])"
  proof (intro ext)
    fix d and m :: "'a list"
    show "(let m' = fold (\<lambda>pointIndex m. m[d := m ! d + points ! pointIndex ! d])
                   [0..<length points] m
        in m'[d := div_size P (m' ! d) (length points)]) = m[d := ?f d (m ! d)]"
    proof (cases "d < length m")
      case True
      have "fold (\<lambda>pointIndex s. s + points ! pointIndex ! d) [0..<length points] (m ! d) =
            fold (\<lambda>p s. s + p ! d) points (m ! d)"
        using fold_indices [of "\<lambda>p s. s + p ! d" points "m ! d"] by simp
      then show ?thesis using True by (simp add: fold_one_component Let_def)
    next
      case False
      have le: "length m \<le> d" using False by simp
      have "fold (\<lambda>pointIndex m. m[d := m ! d + points ! pointIndex ! d]) is m = m" for "is"
        using le by (induction "is") (simp_all add: list_update_beyond)
      then show ?thesis using le by (simp add: Let_def list_update_beyond)
    qed
  qed
  show ?thesis
    unfolding collection_mean_def body
    using fold_update_map [of acc N ?f] assms by simp
qed

lemma collection_mean_centroid:
  "collection_mean P N (replicate N 0) points = centroid P N points"
  by (simp add: collection_mean_eq centroid_def)

lemma point_collection_epsilon_zeroed:
  "point_collection_epsilon P N (replicate N 0, replicate N 0) point_a point_b =
     (if length point_a \<noteq> length point_b then Inl AssertionFailed
      else Inr (mean_shift P N point_a point_b))"
  by (simp add: point_collection_epsilon_def collection_mean_centroid mean_shift_def)

lemma point_collection_epsilon_defined:
  "length point_a = length point_b \<Longrightarrow> \<exists>shift. point_collection_epsilon P N junk point_a point_b = Inr shift"
  by (simp add: point_collection_epsilon_def Let_def)

subsection \<open>The initialiser returns k data points\<close>

lemma closest_distance_length:
  "means \<noteq> [] \<Longrightarrow> \<exists>distances. closest_distance N means data k = Inr distances \<and> length distances = length data"
  by (simp add: closest_distance_def)

lemma plusplus_rounds_ok:
  assumes "conforming P" and "data \<noteq> []"
  shows "means \<noteq> [] \<Longrightarrow> set means \<subseteq> set data \<Longrightarrow>
     \<exists>means' w'. plusplus_rounds P N data k rounds means g w = (Inr means', w') \<and>
        length means' = length means + rounds \<and> set means' \<subseteq> set data \<and>
        stack w' = stack w \<and> rand_device w' = rand_device w \<and> passes w' = passes w \<and>
        device_reads w' = device_reads w"
proof (induction rounds arbitrary: means g w)
  case 0
  then show ?case by simp
next
  case (Suc rounds)
  obtain distances where d: "closest_distance N means data k = Inr distances"
    and ld: "length distances = length data"
    using closest_distance_length [OF Suc.prems(1)] by blast
  obtain drawn g' where dr: "discrete_distribution P distances g = (drawn, g')"
    by (cases "discrete_distribution P distances g")
  have "drawn \<le> length distances"
    using assms(1) dr unfolding conforming_def by (metis fst_conv)
  then have ix: "(if drawn = length distances then 0 else drawn) < length data"
    using ld assms(2) by (cases "drawn = length distances") simp_all
  let ?ix = "(if drawn = length distances then 0 else drawn)"
  let ?w = "w\<lparr>draws := draws w + 1\<rparr>"
  have step: "plusplus_rounds P N data k (Suc rounds) means g w =
        plusplus_rounds P N data k rounds (means @ [data ! ?ix]) g' ?w"
    using d dr ix by (simp add: Let_def)
  have "means @ [data ! ?ix] \<noteq> []" by simp
  moreover have "set (means @ [data ! ?ix]) \<subseteq> set data"
    using Suc.prems(2) nth_mem [OF ix] by simp
  ultimately obtain means' w' where
    "plusplus_rounds P N data k rounds (means @ [data ! ?ix]) g' ?w = (Inr means', w')"
    "length means' = length (means @ [data ! ?ix]) + rounds" "set means' \<subseteq> set data"
    "stack w' = stack ?w" "rand_device w' = rand_device ?w" "passes w' = passes ?w"
    "device_reads w' = device_reads ?w"
    using Suc.IH [of "means @ [data ! ?ix]" g' ?w] by blast
  then show ?case using step by simp
qed

lemma uniform_in_range:
  assumes "conforming P"
  shows "fst (uniform_int_distribution P 0 hi g) \<le> hi"
  using assms unfolding conforming_def by simp

lemma wrapped_predecessor:
  fixes n M :: nat
  assumes "0 < n" and "0 < M"
  shows "(n + M - 1) mod M < n"
proof -
  have "n + M - 1 = (n - 1) + M" using assms by simp
  then have "(n + M - 1) mod M = (n - 1) mod M" by simp
  also have "\<dots> \<le> n - 1" by (rule mod_less_eq_dividend)
  finally show ?thesis using assms by simp
qed

lemma first_index_bound:
  "data \<noteq> [] \<Longrightarrow> (length data + 2 ^ 64 - 1) mod 2 ^ 64 < length data"
  using wrapped_predecessor [of "length data" "2 ^ 64"] by simp

lemma random_plusplus_ok:
  assumes "conforming P" and "0 < k" and "data \<noteq> []"
  shows "\<exists>means w'. random_plusplus P N data k seed w = (Inr means, w') \<and>
        length means = k \<and> set means \<subseteq> set data \<and> stack w' = stack w \<and> passes w' = passes w"
proof -
  obtain s w1 where sw: "(if seed = - 1
              then (device_seed (rand_device w), w\<lparr>device_reads := device_reads w + 1\<rparr>)
              else (seed, w)) = (s, w1)"
    by (cases "(if seed = - 1
              then (device_seed (rand_device w), w\<lparr>device_reads := device_reads w + 1\<rparr>)
              else (seed, w))")
  have w1: "stack w1 = stack w" "passes w1 = passes w"
    using sw by (auto split: if_splits)
  let ?hi = "(length data + 2 ^ 64 - 1) mod 2 ^ 64"
  obtain index g where u: "uniform_int_distribution P 0 ?hi (lcg_seed s) = (index, g)"
    by (cases "uniform_int_distribution P 0 ?hi (lcg_seed s)")
  have "index \<le> ?hi" using uniform_in_range [OF assms(1), of ?hi "lcg_seed s"] u by simp
  then have ix: "index < length data" using first_index_bound [OF assms(3)] by simp
  let ?w = "w1\<lparr>draws := draws w1 + 1\<rparr>"
  have step: "random_plusplus P N data k seed w =
       plusplus_rounds P N data k (k - 1) [data ! index] g ?w"
    using assms(2) sw u ix by (simp add: random_plusplus_def Let_def)
  have "[data ! index] \<noteq> []" by simp
  moreover have "set [data ! index] \<subseteq> set data" using ix by simp
  ultimately obtain means w' where
    "plusplus_rounds P N data k (k - 1) [data ! index] g ?w = (Inr means, w')"
    "length means = length [data ! index] + (k - 1)" "set means \<subseteq> set data"
    "stack w' = stack ?w" "passes w' = passes ?w"
    using plusplus_rounds_ok [OF assms(1) assms(3), of "[data ! index]" N k "k - 1" g ?w] by blast
  then show ?thesis using step assms(2) w1 by simp
qed

subsection \<open>The driver loop\<close>

lemma calculate_clusters_ok:
  assumes "means \<noteq> []"
  shows "\<exists>clusters. calculate_clusters N data means = Inr clusters \<and>
           length clusters = length data \<and> (\<forall>c\<in>set clusters. c < length means)"
proof -
  have "snd (scan_min d (length means - 1)) < length means" for d :: "nat \<Rightarrow> 'a"
    using scan_min_bound [of d "length means - 1"] assms
    by (cases means) simp_all
  then show ?thesis by (auto simp: calculate_clusters_eq [OF assms])
qed

lemma lloyd_loop_ok:
  "length means = k \<Longrightarrow> 0 < k \<Longrightarrow>
   \<exists>means' clusters w'.
      lloyd_loop P N data k maxIter epsilon means count w = (Inr (means', clusters), w') \<and>
      length means' = k \<and> length clusters = length data \<and> (\<forall>c\<in>set clusters. c < k)"
proof (induction P N data k maxIter epsilon means count w rule: lloyd_loop.induct)
  case (1 P N data k maxIter epsilon means count w)
  have ne: "means \<noteq> []" using "1.prems" by auto
  obtain clusters where c: "calculate_clusters N data means = Inr clusters"
    and lc: "length clusters = length data" and rc: "\<forall>c\<in>set clusters. c < length means"
    using calculate_clusters_ok [OF ne] by blast
  have "\<forall>i<min (length clusters) (length data). clusters ! i < k"
    using rc "1.prems"(1) by simp
  moreover have "k \<le> length means" using "1.prems"(1) by simp
  ultimately obtain means' where m: "calculate_means P N data clusters means k = Inr means'"
    and lm: "length means' = k"
    using calculate_means_length [of clusters data k means P N] by blast
  let ?w = "w\<lparr>passes := passes w + 1\<rparr>"
  have eq: "length means' = length means" using lm "1.prems"(1) by simp
  obtain shift where
    s: "point_collection_epsilon P N (stack w (nat (count + 1))) means' means = Inr shift"
    using point_collection_epsilon_defined [OF eq] by blast
  show ?case
  proof (cases "shift > epsilon \<and> count + 1 < maxIter")
    case True
    have "lloyd_loop P N data k maxIter epsilon means count w =
          lloyd_loop P N data k maxIter epsilon means' (count + 1) ?w"
      using c m s True by (subst lloyd_loop.simps) (simp add: Let_def)
    then show ?thesis
      using "1.IH" [OF c m refl refl s True lm "1.prems"(2)] by simp
  next
    case False
    have "lloyd_loop P N data k maxIter epsilon means count w = (Inr (means', clusters), ?w)"
      using c m s False by (subst lloyd_loop.simps) (auto simp: Let_def)
    then show ?thesis using lm lc rc "1.prems"(1) by simp
  qed
qed

lemma lloyd_loop_run:
  "lloyd_loop P N data k maxIter epsilon means count w = (Inr (means', clusters), w') \<Longrightarrow>
   \<exists>n old_means.
      passes w' = passes w + Suc n \<and> count + int (Suc n) \<le> max maxIter (count + 1) \<and>
      means_after P N data k means n = Inr old_means \<and>
      calculate_clusters N data old_means = Inr clusters \<and>
      calculate_means P N data clusters old_means k = Inr means'"
proof (induction P N data k maxIter epsilon means count w rule: lloyd_loop.induct)
  case (1 P N data k maxIter epsilon means count w)
  from "1.prems" obtain cl where c: "calculate_clusters N data means = Inr cl"
    by (subst (asm) lloyd_loop.simps) (auto split: sum.splits)
  from "1.prems" c obtain m1 where m: "calculate_means P N data cl means k = Inr m1"
    by (subst (asm) lloyd_loop.simps) (auto split: sum.splits)
  let ?w = "w\<lparr>passes := passes w + 1\<rparr>"
  from "1.prems" c m obtain shift where
    s: "point_collection_epsilon P N (stack w (nat (count + 1))) m1 means = Inr shift"
    by (subst (asm) lloyd_loop.simps) (auto simp: Let_def split: sum.splits)
  have pass: "lloyd_pass P N data k means = Inr m1"
    using c m by (simp add: lloyd_pass_def)
  show ?case
  proof (cases "shift > epsilon \<and> count + 1 < maxIter")
    case True
    have "lloyd_loop P N data k maxIter epsilon means count w =
          lloyd_loop P N data k maxIter epsilon m1 (count + 1) ?w"
      using c m s True by (subst lloyd_loop.simps) (simp add: Let_def)
    then have "lloyd_loop P N data k maxIter epsilon m1 (count + 1) ?w = (Inr (means', clusters), w')"
      using "1.prems" by simp
    then obtain n old_means where
      r: "passes w' = passes ?w + Suc n" "count + 1 + int (Suc n) \<le> max maxIter (count + 1 + 1)"
        "means_after P N data k m1 n = Inr old_means"
        "calculate_clusters N data old_means = Inr clusters"
        "calculate_means P N data clusters old_means k = Inr means'"
      using "1.IH" [OF c m refl refl s True] by blast
    have "passes w' = passes w + Suc (Suc n)" using r(1) by simp
    moreover have "count + int (Suc (Suc n)) \<le> max maxIter (count + 1)" using r(2) True by simp
    moreover have "means_after P N data k means (Suc n) = Inr old_means"
      using pass r(3) by simp
    ultimately show ?thesis using r(4,5) by blast
  next
    case False
    have "lloyd_loop P N data k maxIter epsilon means count w = (Inr (m1, cl), ?w)"
      using c m s False by (subst lloyd_loop.simps) (auto simp: Let_def)
    then have "means' = m1" "clusters = cl" "w' = ?w" using "1.prems" by simp_all
    then have "passes w' = passes w + Suc 0 \<and> count + int (Suc 0) \<le> max maxIter (count + 1) \<and>
      means_after P N data k means 0 = Inr means \<and>
      calculate_clusters N data means = Inr clusters \<and>
      calculate_means P N data clusters means k = Inr means'"
      using c m by simp
    then show ?thesis by blast
  qed
qed

lemma lloyd_loop_stack:
  "stack w = stack v \<Longrightarrow>
   fst (lloyd_loop P N data k maxIter epsilon means count w) =
   fst (lloyd_loop P N data k maxIter epsilon means count v)"
proof (induction P N data k maxIter epsilon means count w arbitrary: v rule: lloyd_loop.induct)
  case (1 P N data k maxIter epsilon means count w)
  show ?case
  proof (cases "calculate_clusters N data means")
    case (Inl e)
    then show ?thesis
      by (subst lloyd_loop.simps, subst (2) lloyd_loop.simps) simp
  next
    case c: (Inr cl)
    show ?thesis
    proof (cases "calculate_means P N data cl means k")
      case (Inl e)
      then show ?thesis using c
        by (subst lloyd_loop.simps, subst (2) lloyd_loop.simps) simp
    next
      case m: (Inr m1)
      show ?thesis
      proof (cases "point_collection_epsilon P N (stack w (nat (count + 1))) m1 means")
        case (Inl e)
        then show ?thesis using c m "1.prems"
          by (subst lloyd_loop.simps, subst (2) lloyd_loop.simps) (simp add: Let_def)
      next
        case s: (Inr shift)
        show ?thesis
        proof (cases "shift > epsilon \<and> count + 1 < maxIter")
          case True
          have "stack (w\<lparr>passes := passes w + 1\<rparr>) = stack (v\<lparr>passes := passes v + 1\<rparr>)"
            using "1.prems" by simp
          then have "fst (lloyd_loop P N data k maxIter epsilon m1 (count + 1) (w\<lparr>passes := passes w + 1\<rparr>)) =
                fst (lloyd_loop P N data k maxIter epsilon m1 (count + 1) (v\<lparr>passes := passes v + 1\<rparr>))"
            using "1.IH" [OF c m refl refl s True] by blast
          then show ?thesis using c m s True "1.prems"
            by (subst lloyd_loop.simps, subst (2) lloyd_loop.simps) (simp add: Let_def)
        next
          case False
          then show ?thesis using c m s "1.prems"
            by (subst lloyd_loop.simps, subst (2) lloyd_loop.simps) (auto simp: Let_def)
        qed
      qed
    qed
  qed
qed

subsection \<open>Concrete runs at T = int\<close>

lemma draw_below_accept:
  "lcg_next g < past \<Longrightarrow> draw_below past g = Some (lcg_next g, lcg_next g)"
  by (subst draw_below.simps) simp

lemma run_init:
  "random_plusplus int_platform 1 [[0], [4], [8], [20]] 2 0 (world0 e junk) =
     (Inr [[0], [8]], (world0 e junk)\<lparr>draws := 2\<rparr>)"
  by (simp add: random_plusplus_def int_platform_def returning_def libstdcxx_uniform_int_def
      downscaling_def urngrange_def draw_below_accept lcg_seed_def lcg_next_def lcg_modulus_def
      closest_distance_def distance_squared_def libstdcxx_discrete_def world0_def Let_def)

lemma run_assign_1: "calculate_clusters 1 [[0], [4], [8], [20::int]] [[0], [8]] = Inr [0, 0, 1, 1]"
  by code_simp

lemma run_update_1:
  "calculate_means int_platform 1 [[0], [4], [8], [20]] [0, 0, 1, 1] [[0], [8]] 2 = Inr [[2], [14]]"
  by code_simp

lemma run_check_zeroed:
  "point_collection_epsilon int_platform 1 ([0], [0]) [[2], [14]] [[0], [8]] = Inr 4"
  by code_simp

lemma run_check_junk:
  "point_collection_epsilon int_platform 1 ([0], [8]) [[2], [14]] [[0], [8]] = Inr 0"
  by code_simp

lemma run_assign_2: "calculate_clusters 1 [[0], [4], [8], [20::int]] [[2], [14]] = Inr [0, 0, 0, 1]"
  by code_simp

lemma run_update_2:
  "calculate_means int_platform 1 [[0], [4], [8], [20]] [0, 0, 0, 1] [[2], [14]] 2 = Inr [[4], [20]]"
  by code_simp

lemma run_check_2:
  "\<exists>shift. point_collection_epsilon int_platform 1 junk [[4], [20]] [[2], [14]] = Inr shift"
  by (simp add: point_collection_epsilon_defined)

lemma lloyd_loop_step:
  assumes "calculate_clusters N data means = Inr clusters"
    and "calculate_means P N data clusters means k = Inr means'"
    and "point_collection_epsilon P N (stack w (nat (count + 1))) means' means = Inr shift"
  shows "lloyd_loop P N data k maxIter epsilon means count w =
     (if shift \<le> epsilon \<or> maxIter \<le> count + 1
      then (Inr (means', clusters), w\<lparr>passes := passes w + 1\<rparr>)
      else lloyd_loop P N data k maxIter epsilon means' (count + 1) (w\<lparr>passes := passes w + 1\<rparr>))"
  using assms by (subst lloyd_loop.simps) (auto simp: Let_def)

lemma run_zeroed:
  "fst (kmeans_lloyd int_platform 1 [[0], [4], [8], [20]] 2 2 0 0 (world0 e ([0], [0]))) =
     Inr ([[4], [20]], [0, 0, 0, 1])"
proof -
  let ?w1 = "(world0 e ([0], [0::int]))\<lparr>draws := 2\<rparr>"
  let ?w2 = "?w1\<lparr>passes := passes ?w1 + 1\<rparr>"
  have s1: "point_collection_epsilon int_platform 1 (stack ?w1 (nat (0 + 1))) [[2], [14]] [[0], [8]] = Inr 4"
    using run_check_zeroed by (simp add: world0_def)
  obtain shift where
    s2: "point_collection_epsilon int_platform 1 (stack ?w2 (nat (0 + 1 + 1))) [[4], [20]] [[2], [14]] = Inr shift"
    using run_check_2 by blast
  have "lloyd_loop int_platform 1 [[0], [4], [8], [20]] 2 2 0 [[0], [8]] 0 ?w1 =
        lloyd_loop int_platform 1 [[0], [4], [8], [20]] 2 2 0 [[2], [14]] (0 + 1) ?w2"
    using lloyd_loop_step [OF run_assign_1 run_update_1 s1, of 2 0] by simp
  also have "\<dots> = (Inr ([[4], [20]], [0, 0, 0, 1]), ?w2\<lparr>passes := passes ?w2 + 1\<rparr>)"
    using lloyd_loop_step [OF run_assign_2 run_update_2 s2, of 2 0] by simp
  finally have loop: "lloyd_loop int_platform 1 [[0], [4], [8], [20]] 2 2 0 [[0], [8]] 0 ?w1 =
      (Inr ([[4], [20]], [0, 0, 0, 1]), ?w2\<lparr>passes := passes ?w2 + 1\<rparr>)" .
  have start: "kmeans_lloyd int_platform 1 [[0], [4], [8], [20]] 2 2 0 0 (world0 e ([0], [0])) =
      lloyd_loop int_platform 1 [[0], [4], [8], [20]] 2 2 0 [[0], [8]] 0 ?w1"
    unfolding kmeans_lloyd_def run_init by simp
  show ?thesis unfolding start loop by simp
qed

lemma run_junk:
  "fst (kmeans_lloyd int_platform 1 [[0], [4], [8], [20]] 2 2 0 0 (world0 e ([0], [8]))) =
     Inr ([[2], [14]], [0, 0, 1, 1])"
proof -
  let ?w1 = "(world0 e ([0], [8::int]))\<lparr>draws := 2\<rparr>"
  have s1: "point_collection_epsilon int_platform 1 (stack ?w1 (nat (0 + 1))) [[2], [14]] [[0], [8]] = Inr 0"
    using run_check_junk by (simp add: world0_def)
  have loop: "lloyd_loop int_platform 1 [[0], [4], [8], [20]] 2 2 0 [[0], [8]] 0 ?w1 =
        (Inr ([[2], [14]], [0, 0, 1, 1]), ?w1\<lparr>passes := passes ?w1 + 1\<rparr>)"
    using lloyd_loop_step [OF run_assign_1 run_update_1 s1, of 2 0] by simp
  have start: "kmeans_lloyd int_platform 1 [[0], [4], [8], [20]] 2 2 0 0 (world0 e ([0], [8])) =
      lloyd_loop int_platform 1 [[0], [4], [8], [20]] 2 2 0 [[0], [8]] 0 ?w1"
    unfolding kmeans_lloyd_def run_init by simp
  show ?thesis unfolding start loop by simp
qed

lemma draw_below_bound:
  assumes "draw_below past g = Some r"
  shows "fst r < past"
proof (rule draw_below.raw_induct [where P = "\<lambda>past g r. fst r < past", OF _ assms])
  fix f :: "nat \<Rightarrow> nat \<Rightarrow> (nat \<times> nat) option" and past g r
  assume "\<And>past g r. f past g = Some r \<Longrightarrow> fst r < past"
    and "(if past \<le> lcg_next g then f past (lcg_next g)
          else Some (lcg_next g, lcg_next g)) = Some r"
  then show "fst r < past" by (auto split: if_splits)
qed

lemma downscaling_bound:
  assumes "downscaling urange g = Some r" and "urange < urngrange"
  shows "fst r \<le> urange"
proof -
  let ?scaling = "urngrange div (urange + 1)"
  obtain d where d: "draw_below ((urange + 1) * ?scaling) g = Some d"
    and r: "r = (fst d div ?scaling, snd d)"
    using assms(1) by (auto simp: downscaling_def Let_def)
  have "fst d < (urange + 1) * ?scaling" using draw_below_bound [OF d] .
  then have "fst d div ?scaling < urange + 1"
    by (simp add: less_mult_imp_div_less mult.commute)
  then show ?thesis using r by simp
qed

lemma upscaling_bound:
  assumes "upscaling urange g = Some r"
  shows "fst r \<le> urange"
proof (rule upscaling.raw_induct [where P = "\<lambda>urange g r. fst r \<le> urange", OF _ assms])
  fix f :: "nat \<Rightarrow> nat \<Rightarrow> (nat \<times> nat) option" and urange g r
  assume "\<And>urange g r. f urange g = Some r \<Longrightarrow> fst r \<le> urange"
    and "Option.bind (downscaling (urange div (urngrange + 1)) g)
       (\<lambda>(high, g1).
          if ((urngrange + 1) * high + lcg_next g1) mod 2 ^ 64 > urange \<or>
             ((urngrange + 1) * high + lcg_next g1) mod 2 ^ 64 < ((urngrange + 1) * high) mod 2 ^ 64
          then f urange (lcg_next g1)
          else Some (((urngrange + 1) * high + lcg_next g1) mod 2 ^ 64, lcg_next g1)) = Some r"
  then show "fst r \<le> urange"
    by (cases r) (auto simp: bind_eq_Some_conv split: if_splits)
qed

lemma lcg_next_bound: "lcg_next g \<le> urngrange"
proof -
  have "lcg_next g < lcg_modulus" by (simp add: lcg_next_def lcg_modulus_def)
  then show ?thesis by (simp add: urngrange_def)
qed

lemma libstdcxx_uniform_int_bound:
  assumes "libstdcxx_uniform_int a b g = Some r" and "a \<le> b"
  shows "a \<le> fst r \<and> fst r \<le> b"
proof -
  obtain q where q: "(if urngrange > b - a then downscaling (b - a) g
        else if urngrange < b - a then upscaling (b - a) g
        else Some (lcg_next g, lcg_next g)) = Some q" and r: "r = (fst q + a, snd q)"
    using assms(1) by (auto simp: libstdcxx_uniform_int_def)
  have "fst q \<le> b - a"
  proof (cases "urngrange > b - a")
    case True
    then show ?thesis using q downscaling_bound [of "b - a" g q] by simp
  next
    case False
    show ?thesis
    proof (cases "urngrange < b - a")
      case True
      then show ?thesis using q False upscaling_bound [of "b - a" g q] by simp
    next
      case eq: False
      then have "b - a = urngrange" using False by simp
      then show ?thesis using q False eq lcg_next_bound [of g] by auto
    qed
  qed
  then show ?thesis using r assms(2) by simp
qed

lemma conforming_int_platform: "conforming int_platform"
proof -
  have "fst (libstdcxx_discrete weights g) \<le> length weights" for weights g
    by (simp add: libstdcxx_discrete_def min_le_iff_disj)
  moreover have "lo \<le> hi \<Longrightarrow> lo \<le> fst (returning lo hi g) \<and> fst (returning lo hi g) \<le> hi" for lo hi g
    using libstdcxx_uniform_int_bound [of lo hi g]
    by (auto simp: returning_def split: option.splits)
  ultimately show ?thesis by (simp add: conforming_def int_platform_def)
qed

subsection \<open>What a run takes from its world\<close>

lemma plusplus_rounds_fst:
  "fst (plusplus_rounds P N data k rounds means g w) = fst (plusplus_rounds P N data k rounds means g v)"
proof (induction rounds arbitrary: means g w v)
  case 0
  then show ?case by simp
next
  case (Suc rounds)
  show ?case
  proof (cases "closest_distance N means data k")
    case (Inl e)
    then show ?thesis by simp
  next
    case (Inr distances)
    obtain drawn g' where dr: "discrete_distribution P distances g = (drawn, g')"
      by (cases "discrete_distribution P distances g")
    show ?thesis
      using Inr dr Suc.IH [of _ g' "w\<lparr>draws := draws w + 1\<rparr>" "v\<lparr>draws := draws v + 1\<rparr>"]
      by (simp add: Let_def)
  qed
qed

lemma plusplus_rounds_world:
  "stack (snd (plusplus_rounds P N data k rounds means g w)) = stack w \<and>
   device_reads (snd (plusplus_rounds P N data k rounds means g w)) = device_reads w \<and>
   passes (snd (plusplus_rounds P N data k rounds means g w)) = passes w"
proof (induction rounds arbitrary: means g w)
  case 0
  then show ?case by simp
next
  case (Suc rounds)
  show ?case
  proof (cases "closest_distance N means data k")
    case (Inl e)
    then show ?thesis by simp
  next
    case (Inr distances)
    obtain drawn g' where dr: "discrete_distribution P distances g = (drawn, g')"
      by (cases "discrete_distribution P distances g")
    show ?thesis
      using Inr dr Suc.IH [of _ g' "w\<lparr>draws := draws w + 1\<rparr>"]
      by (simp add: Let_def)
  qed
qed

lemma random_plusplus_explicit:
  "seed \<noteq> - 1 \<Longrightarrow> fst (random_plusplus P N data k seed w) = fst (random_plusplus P N data k seed v)"
  using plusplus_rounds_fst [of P N data k "k - 1" _ _ "w\<lparr>draws := draws w + 1\<rparr>" "v\<lparr>draws := draws v + 1\<rparr>"]
  by (simp add: random_plusplus_def Let_def split: prod.splits)

lemma random_plusplus_same_engine:
  "lcg_seed seed = lcg_seed (device_seed (rand_device w)) \<Longrightarrow> seed \<noteq> - 1 \<Longrightarrow>
   fst (random_plusplus P N data k (- 1) w) = fst (random_plusplus P N data k seed v)"
  using plusplus_rounds_fst [of P N data k "k - 1" _ _
      "w\<lparr>device_reads := device_reads w + 1, draws := draws w + 1\<rparr>" "v\<lparr>draws := draws v + 1\<rparr>"]
  by (simp add: random_plusplus_def Let_def split: prod.splits)

lemma random_plusplus_world:
  "stack (snd (random_plusplus P N data k seed w)) = stack w \<and>
   passes (snd (random_plusplus P N data k seed w)) = passes w"
  using plusplus_rounds_world [of P N data k "k - 1"]
  by (simp add: random_plusplus_def Let_def split: prod.splits)

lemma random_plusplus_reads:
  "device_reads (snd (random_plusplus P N data k seed w)) =
     (if 0 < k \<and> seed = - 1 then device_reads w + 1 else device_reads w)"
  using plusplus_rounds_world [of P N data k "k - 1"]
  by (simp add: random_plusplus_def Let_def split: prod.splits)

lemma lloyd_loop_reads:
  "device_reads (snd (lloyd_loop P N data k maxIter epsilon means count w)) = device_reads w"
proof (induction P N data k maxIter epsilon means count w rule: lloyd_loop.induct)
  case (1 P N data k maxIter epsilon means count w)
  show ?case
  proof (cases "calculate_clusters N data means")
    case (Inl e)
    then show ?thesis by (subst lloyd_loop.simps) simp
  next
    case c: (Inr cl)
    show ?thesis
    proof (cases "calculate_means P N data cl means k")
      case (Inl e)
      then show ?thesis using c by (subst lloyd_loop.simps) simp
    next
      case m: (Inr m1)
      show ?thesis
      proof (cases "point_collection_epsilon P N (stack w (nat (count + 1))) m1 means")
        case (Inl e)
        then show ?thesis using c m by (subst lloyd_loop.simps) (simp add: Let_def)
      next
        case s: (Inr shift)
        show ?thesis
        proof (cases "shift > epsilon \<and> count + 1 < maxIter")
          case True
          then show ?thesis using "1.IH" [OF c m refl refl s True]
            by (simp add: lloyd_loop_step [OF c m s])
        next
          case False
          then show ?thesis by (auto simp: lloyd_loop_step [OF c m s])
        qed
      qed
    qed
  qed
qed

lemma lcg_seed_sentinel: "lcg_seed (- 1) = lcg_seed 0"
  by (simp add: lcg_seed_def lcg_modulus_def)

lemma kmeans_same_init:
  assumes "fst (random_plusplus P N data k seed w) = fst (random_plusplus P N data k seed' v)"
    and "stack w = stack v"
  shows "fst (kmeans_lloyd P N data k maxIter seed epsilon w) =
         fst (kmeans_lloyd P N data k maxIter seed' epsilon v)"
proof -
  obtain r w1 where rw: "random_plusplus P N data k seed w = (r, w1)"
    by (cases "random_plusplus P N data k seed w")
  obtain v1 where rv: "random_plusplus P N data k seed' v = (r, v1)"
    using assms(1) rw by (cases "random_plusplus P N data k seed' v") simp
  have st: "stack w1 = stack v1"
    using random_plusplus_world [of P N data k seed w] random_plusplus_world [of P N data k seed' v]
      rw rv assms(2) by simp
  show ?thesis
  proof (cases r)
    case (Inl e)
    then show ?thesis using rw rv by (simp add: kmeans_lloyd_def)
  next
    case (Inr m0)
    then show ?thesis using rw rv lloyd_loop_stack [OF st] by (simp add: kmeans_lloyd_def)
  qed
qed

lemma kmeans_stack:
  assumes "seed \<noteq> - 1" and "stack w = stack v"
  shows "fst (kmeans_lloyd P N data k maxIter seed epsilon w) =
         fst (kmeans_lloyd P N data k maxIter seed epsilon v)"
  using kmeans_same_init [OF random_plusplus_explicit [OF assms(1)] assms(2)] .

lemma kmeans_reads:
  "device_reads (snd (kmeans_lloyd P N data k maxIter seed epsilon w)) =
     (if 0 < k \<and> 0 < maxIter \<and> k \<le> length data \<and> seed = - 1 then device_reads w + 1
      else device_reads w)"
proof -
  obtain r w1 where rw: "random_plusplus P N data k seed w = (r, w1)"
    by (cases "random_plusplus P N data k seed w")
  have "device_reads w1 = (if 0 < k \<and> seed = - 1 then device_reads w + 1 else device_reads w)"
    using random_plusplus_reads [of P N data k seed w] rw by simp
  then show ?thesis
    using rw by (cases r) (auto simp: kmeans_lloyd_def lloyd_loop_reads)
qed

subsection \<open>Assignments and members\<close>

lemma valid_assignment_prefix:
  "\<forall>c\<in>set clusters. c < k \<Longrightarrow> \<forall>i<min (length clusters) (length data). clusters ! i < k"
  by simp

lemma no_members:
  "cluster_members clusters data c = [] \<longleftrightarrow>
     (\<forall>i<min (length clusters) (length data). clusters ! i \<noteq> c)"
  by (auto simp: cluster_members_def filter_empty_conv)

lemma calculate_means_wrapped:
  fixes P :: "('a::semiring_1) platform"
  assumes "\<forall>i<min (length clusters) (length data). clusters ! i < k"
    and "length old_means = k"
    and "c < k"
    and "of_nat (length (cluster_members clusters data c)) = (0::'a)"
  shows "\<exists>means.
     calculate_means P N data clusters old_means k = Inr means \<and> length means = k \<and>
     means ! c = old_means ! c"
proof -
  let ?sel = "filter (\<lambda>i. clusters ! i = c) [0..<min (length clusters) (length data)]"
  have k: "k \<le> length old_means" using assms(2) by simp
  obtain means where
    r: "calculate_means P N data clusters old_means k = Inr means" and l: "length means = k"
    and v: "\<forall>c<k. means ! c =
        (let sel = filter (\<lambda>i. clusters ! i = c) [0..<min (length clusters) (length data)];
             total = fold (\<lambda>i m. fold (\<lambda>j mean. mean[j := mean ! j + data ! i ! j]) [0..<N] m)
                       sel (replicate N 0);
             tally = fold (\<lambda>i n. n + 1) sel 0
         in if tally = 0 then old_means ! c
            else fold (\<lambda>j mean. mean[j := div_T P (mean ! j) tally]) [0..<N] total)"
    using calculate_means_char [OF assms(1) k, of P N] by blast
  have len: "length ?sel = length (cluster_members clusters data c)"
    by (simp add: cluster_members_def)
  have "fold (\<lambda>i n. n + 1) ?sel (0::'a) = 0"
    using assms(4) by (simp add: fold_count len)
  then have "means ! c = old_means ! c" using v assms(3) by (simp add: Let_def)
  then show ?thesis using r l by blast
qed

lemma all_in_cluster_0:
  "cluster_members (replicate n 0) (replicate n p) 0 = replicate n p"
proof -
  have "filter (\<lambda>i. replicate n (0::nat) ! i = 0) [0..<n] = [0..<n]"
    by (simp add: filter_id_conv)
  moreover have "map (\<lambda>i. replicate n p ! i) [0..<n] = replicate n p"
    using map_nth [of "replicate n p"] by simp
  ultimately show ?thesis by (simp add: cluster_members_def)
qed

subsection \<open>The driver on valid input\<close>

lemma kmeans_lloyd_valid:
  assumes "0 < k" and "0 < maxIter" and "k \<le> length data"
    and "random_plusplus P N data k seed w = (Inr means, w1)"
  shows "kmeans_lloyd P N data k maxIter seed epsilon w =
           lloyd_loop P N data k maxIter epsilon means 0 w1"
  using assms by (simp add: kmeans_lloyd_def)

lemma run_one_pass:
  "kmeans_lloyd int_platform 1 [[0], [4], [8], [20]] 2 1 0 0 (world0 0 ([0], [0])) =
     (Inr ([[2], [14]], [0, 0, 1, 1]), (world0 0 ([0], [0]))\<lparr>draws := 2, passes := 1\<rparr>)"
proof -
  let ?w1 = "(world0 0 ([0], [0::int]))\<lparr>draws := 2\<rparr>"
  have s1: "point_collection_epsilon int_platform 1 (stack ?w1 (nat (0 + 1))) [[2], [14]] [[0], [8]] = Inr 4"
    using run_check_zeroed by (simp add: world0_def)
  have loop: "lloyd_loop int_platform 1 [[0], [4], [8], [20]] 2 1 0 [[0], [8]] 0 ?w1 =
        (Inr ([[2], [14]], [0, 0, 1, 1]), ?w1\<lparr>passes := passes ?w1 + 1\<rparr>)"
    using lloyd_loop_step [OF run_assign_1 run_update_1 s1, of 1 0] by simp
  have start: "kmeans_lloyd int_platform 1 [[0], [4], [8], [20]] 2 1 0 0 (world0 0 ([0], [0])) =
      lloyd_loop int_platform 1 [[0], [4], [8], [20]] 2 1 0 [[0], [8]] 0 ?w1"
    unfolding kmeans_lloyd_def run_init by simp
  show ?thesis unfolding start loop by (simp add: world0_def)
qed

subsection \<open>The seed\<close>

lemma sentinel_run:
  "fst (kmeans_lloyd P N data k maxIter (- 1) epsilon w) =
     fst (kmeans_lloyd P N data k maxIter
            (if device_seed (rand_device w) = - 1 then 0 else device_seed (rand_device w)) epsilon w)"
proof -
  let ?s = "(if device_seed (rand_device w) = - 1 then 0 else device_seed (rand_device w))"
  have "lcg_seed ?s = lcg_seed (device_seed (rand_device w))"
    using lcg_seed_sentinel by simp
  moreover have "?s \<noteq> - 1" by simp
  ultimately have "fst (random_plusplus P N data k (- 1) w) = fst (random_plusplus P N data k ?s w)"
    by (rule random_plusplus_same_engine)
  then show ?thesis by (rule kmeans_same_init) simp
qed

lemma run_init_1:
  "random_plusplus int_platform 1 [[0], [4], [8], [20]] 2 1 (world0 e junk) =
     (Inr [[4], [20]], (world0 e junk)\<lparr>draws := 2\<rparr>)"
  by (simp add: random_plusplus_def int_platform_def returning_def libstdcxx_uniform_int_def
      downscaling_def urngrange_def draw_below_accept lcg_seed_def lcg_next_def lcg_modulus_def
      closest_distance_def distance_squared_def libstdcxx_discrete_def world0_def Let_def)

lemma run_assign_fixed: "calculate_clusters 1 [[0], [4], [8], [20::int]] [[4], [20]] = Inr [0, 0, 0, 1]"
  by code_simp

lemma run_update_fixed:
  "calculate_means int_platform 1 [[0], [4], [8], [20]] [0, 0, 0, 1] [[4], [20]] 2 = Inr [[4], [20]]"
  by code_simp

lemma run_seed_1:
  "fst (kmeans_lloyd int_platform 1 [[0], [4], [8], [20]] 2 1 1 0 (world0 e ([0], [0]))) =
     Inr ([[4], [20]], [0, 0, 0, 1])"
proof -
  let ?w1 = "(world0 e ([0], [0::int]))\<lparr>draws := 2\<rparr>"
  obtain shift where
    s1: "point_collection_epsilon int_platform 1 (stack ?w1 (nat (0 + 1))) [[4], [20]] [[4], [20]] = Inr shift"
    using point_collection_epsilon_defined [of "[[4], [20]]" "[[4], [20]]"] by blast
  have loop: "lloyd_loop int_platform 1 [[0], [4], [8], [20]] 2 1 0 [[4], [20]] 0 ?w1 =
        (Inr ([[4], [20]], [0, 0, 0, 1]), ?w1\<lparr>passes := passes ?w1 + 1\<rparr>)"
    using lloyd_loop_step [OF run_assign_fixed run_update_fixed s1, of 1 0] by simp
  have start: "kmeans_lloyd int_platform 1 [[0], [4], [8], [20]] 2 1 1 0 (world0 e ([0], [0])) =
      lloyd_loop int_platform 1 [[0], [4], [8], [20]] 2 1 0 [[4], [20]] 0 ?w1"
    unfolding kmeans_lloyd_def run_init_1 by simp
  show ?thesis unfolding start loop by simp
qed

lemma run_seed_0:
  "fst (kmeans_lloyd int_platform 1 [[0], [4], [8], [20]] 2 1 0 0 (world0 e ([0], [0]))) =
     Inr ([[2], [14]], [0, 0, 1, 1])"
proof -
  let ?w1 = "(world0 e ([0], [0::int]))\<lparr>draws := 2\<rparr>"
  have s1: "point_collection_epsilon int_platform 1 (stack ?w1 (nat (0 + 1))) [[2], [14]] [[0], [8]] = Inr 4"
    using run_check_zeroed by (simp add: world0_def)
  have loop: "lloyd_loop int_platform 1 [[0], [4], [8], [20]] 2 1 0 [[0], [8]] 0 ?w1 =
        (Inr ([[2], [14]], [0, 0, 1, 1]), ?w1\<lparr>passes := passes ?w1 + 1\<rparr>)"
    using lloyd_loop_step [OF run_assign_1 run_update_1 s1, of 1 0] by simp
  have start: "kmeans_lloyd int_platform 1 [[0], [4], [8], [20]] 2 1 0 0 (world0 e ([0], [0])) =
      lloyd_loop int_platform 1 [[0], [4], [8], [20]] 2 1 0 [[0], [8]] 0 ?w1"
    unfolding kmeans_lloyd_def run_init by simp
  show ?thesis unfolding start loop by simp
qed

lemma sentinel_entropy_1:
  "fst (kmeans_lloyd int_platform 1 [[0], [4], [8], [20]] 2 1 (- 1) 0 (world0 1 ([0], [0]))) =
     Inr ([[4], [20]], [0, 0, 0, 1])"
proof -
  have "device_seed (rand_device (world0 1 ([0], [0::int]))) = 1"
    by (simp add: world0_def device_seed_def)
  then show ?thesis
    using sentinel_run [of int_platform 1 "[[0], [4], [8], [20]]" 2 1 0 "world0 1 ([0], [0])"]
      run_seed_1 [of 1]
    by simp
qed

lemma sentinel_entropy_0:
  "fst (kmeans_lloyd int_platform 1 [[0], [4], [8], [20]] 2 1 (- 1) 0 (world0 0 ([0], [0]))) =
     Inr ([[2], [14]], [0, 0, 1, 1])"
proof -
  have "device_seed (rand_device (world0 0 ([0], [0::int]))) = 0"
    by (simp add: world0_def device_seed_def)
  then show ?thesis
    using sentinel_run [of int_platform 1 "[[0], [4], [8], [20]]" 2 1 0 "world0 0 ([0], [0])"]
      run_seed_0 [of 0]
    by simp
qed

section \<open>The claims\<close>

text \<open>
  Claim C1. On a dataset of at least \<open>k\<close> points, with \<open>k > 0\<close> and \<open>maxIter > 0\<close>,
  \<open>kmeans_lloyd\<close> returns a pair: the assignment has the length of the dataset, each of
  its values lies below \<open>k\<close>, and there are exactly \<open>k\<close> means. The standard library is
  taken to be \<open>conforming\<close>; the scalar type, the seed, the threshold and the world are
  arbitrary.
\<close>

theorem kmeans_lloyd_shape:
  assumes "conforming P" and "0 < k" and "0 < maxIter" and "k \<le> length data"
  shows "\<exists>means clusters w'.
     kmeans_lloyd P N data k maxIter seed epsilon w = (Inr (means, clusters), w') \<and>
     length clusters = length data \<and> (\<forall>c\<in>set clusters. c < k) \<and> length means = k"
proof -
  have ne: "data \<noteq> []" using assms(2,4) by auto
  obtain m0 w1 where r: "random_plusplus P N data k seed w = (Inr m0, w1)"
    and l: "length m0 = k"
    using random_plusplus_ok [OF assms(1,2) ne, of N seed w] by blast
  obtain means clusters w' where
    "lloyd_loop P N data k maxIter epsilon m0 0 w1 = (Inr (means, clusters), w')"
    "length means = k" "length clusters = length data" "\<forall>c\<in>set clusters. c < k"
    using lloyd_loop_ok [OF l assms(2), of P N data maxIter epsilon 0 w1] by blast
  then show ?thesis using kmeans_lloyd_valid [OF assms(2,3,4) r, of epsilon] by auto
qed

theorem kmeans_lloyd_shape_witness:
  "\<exists>means clusters w'.
     kmeans_lloyd int_platform 1 [[0], [4], [8], [20]] 2 2 1 0 (world0 0 ([0], [0])) =
       (Inr (means, clusters), w') \<and>
     length clusters = length [[0], [4], [8], [20::int]] \<and>
     (\<forall>c\<in>set clusters. c < 2) \<and> length means = 2"
proof -
  have "(0::nat) < 2" by simp
  moreover have "(0::int) < 2" by simp
  moreover have "2 \<le> length [[0], [4], [8], [20::int]]" by simp
  ultimately show ?thesis
    by (rule kmeans_lloyd_shape [OF conforming_int_platform])
qed

text \<open>
  Claim C2. The convergence check is meant to return the distance between the centroids
  of the two sets of means. \<open>means_a\<close> and \<open>means_b\<close> are declared without an
  initialiser and then added to, so the result depends on what they held: on two
  identical sets of means, whose centroids coincide and whose \<open>mean_shift\<close> is \<open>0\<close>, the
  check returns \<open>5\<close> when \<open>means_a\<close> held \<open>5\<close>. With both arrays zeroed the check is the
  \<open>mean_shift\<close> (lemma \<open>point_collection_epsilon_zeroed\<close>), and the loop stops exactly
  when the value is at most \<open>epsilon\<close> or the counter reaches \<open>maxIter\<close> (lemma
  \<open>lloyd_loop_step\<close>).
\<close>

theorem uninitialised_accumulators:
  "point_collection_epsilon int_platform 1 ([5], [0]) [[1]] [[1]] = Inr 5 \<and>
   mean_shift int_platform 1 [[1]] [[1]] = 0"
proof -
  have "point_collection_epsilon int_platform 1 ([5], [0]) [[1]] [[1]] = Inr 5" by code_simp
  moreover have "mean_shift int_platform 1 [[1]] [[1]] = 0" by code_simp
  ultimately show ?thesis by simp
qed

text \<open>
  Claim C3. Two invocations with the same dataset, \<open>k\<close>, \<open>maxIter\<close>, \<open>epsilon\<close> and
  explicit seed \<open>0\<close>, that differ only in what the uninitialised locals of the
  convergence check held. The seed gives the initial means \<open>[[0], [8]]\<close>; the first
  invocation runs two passes, the second stops after one, and the results differ. Given
  equal contents of these locals an explicit seed does fix the result, whatever the
  entropy source delivers (lemma \<open>kmeans_stack\<close>).
\<close>

theorem indeterminate_locals_change_result:
  "fst (kmeans_lloyd int_platform 1 [[0], [4], [8], [20]] 2 2 0 0 (world0 0 ([0], [0]))) =
     Inr ([[4], [20]], [0, 0, 0, 1]) \<and>
   fst (kmeans_lloyd int_platform 1 [[0], [4], [8], [20]] 2 2 0 0 (world0 0 ([0], [8]))) =
     Inr ([[2], [14]], [0, 0, 1, 1]) \<and>
   fst (kmeans_lloyd int_platform 1 [[0], [4], [8], [20]] 2 2 0 0 (world0 0 ([0], [0]))) \<noteq>
   fst (kmeans_lloyd int_platform 1 [[0], [4], [8], [20]] 2 2 0 0 (world0 0 ([0], [8])))"
  unfolding run_zeroed run_junk by simp

text \<open>
  Claim C4. When \<open>kmeans_lloyd\<close> returns, the returned assignment is the one computed by
  \<open>calculate_clusters\<close> against the means as they stood after all passes but the last,
  and the returned means are what \<open>calculate_means\<close> then made of that assignment. The
  two need not agree: in the run of the second conjunct (seed \<open>0\<close>, one pass) the
  returned labels are \<open>[0, 0, 1, 1]\<close>, while the returned means assign \<open>[0, 0, 0, 1]\<close>.
\<close>

theorem labels_precede_last_update:
  assumes "kmeans_lloyd P N data k maxIter seed epsilon w = (Inr (means, clusters), w')"
  shows "(\<exists>means0 w0 n old_means.
     random_plusplus P N data k seed w = (Inr means0, w0) \<and>
     passes w' = passes w0 + Suc n \<and>
     means_after P N data k means0 n = Inr old_means \<and>
     calculate_clusters N data old_means = Inr clusters \<and>
     calculate_means P N data clusters old_means k = Inr means) \<and>
   (\<exists>v. kmeans_lloyd int_platform 1 [[0], [4], [8], [20]] 2 1 0 0 (world0 0 ([0], [0])) =
          (Inr ([[2], [14]], [0, 0, 1, 1]), v) \<and>
        calculate_clusters 1 [[0], [4], [8], [20::int]] [[2], [14]] = Inr [0, 0, 0, 1])"
proof -
  have example: "\<exists>v. kmeans_lloyd int_platform 1 [[0], [4], [8], [20]] 2 1 0 0 (world0 0 ([0], [0])) =
          (Inr ([[2], [14]], [0, 0, 1, 1]), v) \<and>
        calculate_clusters 1 [[0], [4], [8], [20::int]] [[2], [14]] = Inr [0, 0, 0, 1]"
    using run_one_pass run_assign_2 by blast
  have v: "0 < k" "0 < maxIter" "k \<le> length data"
    using assms by (auto simp: kmeans_lloyd_def split: if_splits)
  obtain r w0 where rw: "random_plusplus P N data k seed w = (r, w0)"
    by (cases "random_plusplus P N data k seed w")
  then obtain means0 where r: "r = Inr means0"
    using assms v by (cases r) (auto simp: kmeans_lloyd_def)
  have "lloyd_loop P N data k maxIter epsilon means0 0 w0 = (Inr (means, clusters), w')"
    using assms kmeans_lloyd_valid [OF v, of P N seed w means0 w0 epsilon] rw r by simp
  then obtain n old_means where
    "passes w' = passes w0 + Suc n" "means_after P N data k means0 n = Inr old_means"
    "calculate_clusters N data old_means = Inr clusters"
    "calculate_means P N data clusters old_means k = Inr means"
    using lloyd_loop_run by blast
  then show ?thesis using rw r example by blast
qed

theorem labels_precede_last_update_witness:
  "(\<exists>means0 w0 n old_means.
     random_plusplus int_platform 1 [[0], [4], [8], [20]] 2 0 (world0 0 ([0], [0])) = (Inr means0, w0) \<and>
     passes ((world0 0 ([0], [0::int]))\<lparr>draws := 2, passes := 1\<rparr>) = passes w0 + Suc n \<and>
     means_after int_platform 1 [[0], [4], [8], [20]] 2 means0 n = Inr old_means \<and>
     calculate_clusters 1 [[0], [4], [8], [20]] old_means = Inr [0, 0, 1, 1] \<and>
     calculate_means int_platform 1 [[0], [4], [8], [20]] [0, 0, 1, 1] old_means 2 = Inr [[2], [14]])"
  by (rule conjunct1 [OF labels_precede_last_update [OF run_one_pass]])

text \<open>
  Claim C5. The members of a cluster are counted in the scalar type, \<open>count\<close> being a
  \<open>std::vector<T>\<close>, and the update divides by that count unless it is \<open>T\<close>'s zero. So,
  for an assignment with values below \<open>k\<close>, \<open>k\<close> previous means and a cluster \<open>c < k\<close>
  whose number of members is not zero in \<open>T\<close>, the new mean of \<open>c\<close> is, in each of the
  \<open>N\<close> components, the sum over the members of \<open>c\<close>, taken in \<open>T\<close>, divided (by the
  division of \<open>T\<close>) by their number; the members are taken over the common length of the
  assignment and the dataset. The scalar type is any semiring, wrapping ones included.
  Having a member is not enough: at \<open>T = signed char\<close> a cluster of 256 members, each
  \<open>[1]\<close>, has the count \<open>0\<close> and keeps its previous mean \<open>[7]\<close>.
\<close>

theorem mean_update_is_average:
  fixes P :: "('a::semiring_1) platform"
  assumes "\<forall>c\<in>set clusters. c < k"
    and "length old_means = k"
    and "c < k"
    and "of_nat (length (cluster_members clusters data c)) \<noteq> (0::'a)"
  shows "\<exists>means.
     calculate_means P N data clusters old_means k = Inr means \<and>
     means ! c =
       map (\<lambda>j. div_T P (sum_list (map (\<lambda>p. p ! j) (cluster_members clusters data c)))
                   (of_nat (length (cluster_members clusters data c))))
         [0..<N]"
  using calculate_means_average [OF valid_assignment_prefix [OF assms(1)] assms(2,3,4)] .

theorem mean_update_is_average_witness:
  "cluster_members [0, 0, 1, 1, 1] [[0], [4], [8], [20::int]] 1 = [[8], [20]] \<and>
   (\<exists>means.
      calculate_means int_platform 1 [[0], [4], [8], [20]] [0, 0, 1, 1, 1] [[0], [8]] 2 = Inr means \<and>
      means ! 1 = [int_div (8 + 20) 2])"
proof -
  have m: "cluster_members [0, 0, 1, 1, 1] [[0], [4], [8], [20::int]] 1 = [[8], [20]]"
    by (simp add: cluster_members_def)
  have "\<forall>c\<in>set [0, 0, 1, 1, 1::nat]. c < 2" by simp
  moreover have "length [[0], [8::int]] = 2" by simp
  moreover have "(1::nat) < 2" by simp
  moreover have "of_nat (length (cluster_members [0, 0, 1, 1, 1] [[0], [4], [8], [20::int]] 1)) \<noteq> (0::int)"
    using m by simp
  ultimately have "\<exists>means.
     calculate_means int_platform 1 [[0], [4], [8], [20]] [0, 0, 1, 1, 1] [[0], [8]] 2 = Inr means \<and>
     means ! 1 =
       map (\<lambda>j. div_T int_platform (sum_list (map (\<lambda>p. p ! j) (cluster_members [0, 0, 1, 1, 1] [[0], [4], [8], [20::int]] 1)))
                   (of_nat (length (cluster_members [0, 0, 1, 1, 1] [[0], [4], [8], [20::int]] 1))))
         [0..<1]"
    by (rule mean_update_is_average)
  then show ?thesis using m by (simp add: int_platform_def)
qed

theorem wrapped_count_keeps_old_mean:
  "cluster_members (replicate 256 0) (replicate 256 [1::8 word]) 0 = replicate 256 [1] \<and>
   calculate_means char_platform 1 (replicate 256 [1]) (replicate 256 0) [[7]] 1 = Inr [[7]] \<and>
   \<not> (\<exists>means.
        calculate_means char_platform 1 (replicate 256 [1]) (replicate 256 0) [[7]] 1 = Inr means \<and>
        means ! 0 =
          map (\<lambda>j. div_T char_platform
                     (sum_list (map (\<lambda>p. p ! j)
                        (cluster_members (replicate 256 0) (replicate 256 [1::8 word]) 0)))
                     (of_nat (length (cluster_members (replicate 256 0) (replicate 256 [1::8 word]) 0))))
            [0..<1])"
proof -
  have members: "cluster_members (replicate 256 0) (replicate 256 [1::8 word]) 0 = replicate 256 [1]"
    by (rule all_in_cluster_0)
  have "\<forall>i<min (length (replicate 256 (0::nat))) (length (replicate 256 [1::8 word])).
          replicate 256 (0::nat) ! i < 1"
    by simp
  moreover have "length [[7::8 word]] = 1" by simp
  moreover have "(0::nat) < 1" by simp
  moreover have "of_nat (length (cluster_members (replicate 256 0) (replicate 256 [1::8 word]) 0)) = (0::8 word)"
    unfolding members by simp
  ultimately have "\<exists>means.
      calculate_means char_platform 1 (replicate 256 [1]) (replicate 256 0) [[7]] 1 = Inr means \<and>
      length means = 1 \<and> means ! 0 = [[7]] ! 0"
    by (rule calculate_means_wrapped)
  then obtain means where
    r: "calculate_means char_platform 1 (replicate 256 [1]) (replicate 256 0) [[7]] 1 = Inr means"
    and l: "length means = 1" and v: "means ! 0 = [[7]] ! 0"
    by blast
  have "means = [[7]]" using l v by (cases means) simp_all
  then have run: "calculate_means char_platform 1 (replicate 256 [1]) (replicate 256 0) [[7]] 1 = Inr [[7]]"
    using r by simp
  have "map (\<lambda>j. div_T char_platform
                     (sum_list (map (\<lambda>p. p ! j) (replicate 256 [1::8 word])))
                     (of_nat (length (replicate 256 [1::8 word]))))
            [0..<1] = [0]"
    by (simp add: char_platform_def int_div_def sum_list_replicate)
  then show ?thesis unfolding members run by simp
qed

text \<open>
  Claim C6. For an assignment with values below \<open>k\<close>, \<open>k\<close> previous means and a cluster
  \<open>c < k\<close> without members, the mean update returns the previous mean of \<open>c\<close>.
\<close>

theorem empty_cluster_keeps_mean:
  fixes P :: "('a::{zero,one,plus}) platform"
  assumes "\<forall>c\<in>set clusters. c < k"
    and "length old_means = k"
    and "c < k"
    and "cluster_members clusters data c = []"
  shows "\<exists>means.
     calculate_means P N data clusters old_means k = Inr means \<and> means ! c = old_means ! c"
  using calculate_means_empty [OF valid_assignment_prefix [OF assms(1)] assms(2,3)] assms(4)
  by (simp add: no_members)

theorem empty_cluster_keeps_mean_witness:
  "cluster_members [0, 0, 0, 0] [[0], [4], [8], [20::int]] 1 = [] \<and>
   (\<exists>means.
      calculate_means int_platform 1 [[0], [4], [8], [20]] [0, 0, 0, 0] [[0], [8]] 2 = Inr means \<and>
      means ! 1 = [8])"
proof -
  have m: "cluster_members [0, 0, 0, 0] [[0], [4], [8], [20::int]] 1 = []"
    by (simp add: cluster_members_def)
  have "\<forall>c\<in>set [0, 0, 0, 0::nat]. c < 2" by simp
  moreover have "length [[0], [8::int]] = 2" by simp
  moreover have "(1::nat) < 2" by simp
  ultimately have "\<exists>means.
     calculate_means int_platform 1 [[0], [4], [8], [20]] [0, 0, 0, 0] [[0], [8]] 2 = Inr means \<and>
     means ! 1 = [[0], [8]] ! 1"
    using m by (rule empty_cluster_keeps_mean)
  then show ?thesis using m by simp
qed

text \<open>
  Claim C7. For a linearly ordered scalar type and a non-empty set of means,
  \<open>closest_mean\<close> returns an index whose mean is at a squared distance no greater than
  that of any other mean, and strictly smaller than that of every mean of a lower index;
  \<open>calculate_clusters\<close> gives each dataset point the index \<open>closest_mean\<close> returns for it.
  Both take their arguments by reference to \<open>const\<close> and are functions of them here:
  there is nothing they could change.
\<close>

theorem closest_mean_first_minimum:
  fixes point :: "('a::{linorder,zero,plus,minus,times}) point"
  assumes "means \<noteq> []"
  shows "\<exists>c clusters.
     closest_mean N point means = Inr c \<and> c < length means \<and>
     (\<forall>j<length means. distance_squared N point (means ! c) \<le> distance_squared N point (means ! j)) \<and>
     (\<forall>j<c. distance_squared N point (means ! c) < distance_squared N point (means ! j)) \<and>
     calculate_clusters N data means = Inr clusters \<and> length clusters = length data \<and>
     (\<forall>i<length data. closest_mean N (data ! i) means = Inr (clusters ! i))"
proof -
  let ?d = "\<lambda>i. distance_squared N point (means ! i)"
  let ?n = "length means - 1"
  let ?c = "snd (scan_min ?d ?n)"
  have n: "Suc ?n = length means" using assms by (cases means) simp_all
  have c: "closest_mean N point means = Inr ?c" by (rule closest_mean_scan [OF assms])
  have b: "?c < length means" using scan_min_bound [of ?d ?n] n by simp
  have least: "\<forall>j<length means. ?d ?c \<le> ?d j"
  proof (intro allI impI)
    fix j assume "j < length means"
    then have "j \<le> ?n" using n by simp
    then show "?d ?c \<le> ?d j" by (rule scan_min_least)
  qed
  have first: "\<forall>j<?c. ?d ?c < ?d j"
    using scan_min_first [of _ ?d ?n] by blast
  let ?clusters = "map (\<lambda>point. snd (scan_min (\<lambda>i. distance_squared N point (means ! i)) ?n)) data"
  have cl: "calculate_clusters N data means = Inr ?clusters"
    by (rule calculate_clusters_eq [OF assms])
  have each: "\<forall>i<length data. closest_mean N (data ! i) means = Inr (?clusters ! i)"
    by (simp add: closest_mean_scan [OF assms])
  show ?thesis using c b least first cl each by (intro exI [of _ ?c] exI [of _ ?clusters]) simp
qed

theorem closest_mean_first_minimum_witness:
  "\<exists>c clusters.
     closest_mean 1 [8::int] [[2], [14]] = Inr c \<and> c < length [[2], [14::int]] \<and>
     (\<forall>j<length [[2], [14::int]].
        distance_squared 1 [8::int] ([[2], [14]] ! c) \<le> distance_squared 1 [8::int] ([[2], [14]] ! j)) \<and>
     (\<forall>j<c. distance_squared 1 [8::int] ([[2], [14]] ! c) < distance_squared 1 [8::int] ([[2], [14]] ! j)) \<and>
     calculate_clusters 1 [[0], [4], [8], [20::int]] [[2], [14]] = Inr clusters \<and>
     length clusters = length [[0], [4], [8], [20::int]] \<and>
     (\<forall>i<length [[0], [4], [8], [20::int]].
        closest_mean 1 ([[0], [4], [8], [20::int]] ! i) [[2], [14]] = Inr (clusters ! i))"
proof -
  have "[[2], [14::int]] \<noteq> []" by simp
  then show ?thesis by (rule closest_mean_first_minimum)
qed

text \<open>
  Claim C8. With \<open>maxIter = 1\<close> the driver makes one pass, whatever \<open>epsilon\<close> and the
  convergence check say: the returned assignment is the one computed against the initial
  means, the returned means are their first update, and the pass counter has moved by one.
\<close>

theorem single_pass:
  assumes "conforming P" and "0 < k" and "k \<le> length data"
  shows "\<exists>means0 w0 clusters means.
     random_plusplus P N data k seed w = (Inr means0, w0) \<and>
     calculate_clusters N data means0 = Inr clusters \<and>
     calculate_means P N data clusters means0 k = Inr means \<and>
     kmeans_lloyd P N data k 1 seed epsilon w =
       (Inr (means, clusters), w0\<lparr>passes := passes w0 + 1\<rparr>)"
proof -
  have ne: "data \<noteq> []" using assms(2,3) by auto
  obtain means0 w0 where r: "random_plusplus P N data k seed w = (Inr means0, w0)"
    and l: "length means0 = k"
    using random_plusplus_ok [OF assms(1,2) ne, of N seed w] by blast
  have mne: "means0 \<noteq> []" using l assms(2) by auto
  obtain clusters where c: "calculate_clusters N data means0 = Inr clusters"
    and rc: "\<forall>c\<in>set clusters. c < length means0"
    using calculate_clusters_ok [OF mne] by blast
  have "\<forall>i<min (length clusters) (length data). clusters ! i < k" using rc l by simp
  moreover have "k \<le> length means0" using l by simp
  ultimately obtain means where m: "calculate_means P N data clusters means0 k = Inr means"
    and lm: "length means = k"
    using calculate_means_length [of clusters data k means0 P N] by blast
  have eq: "length means = length means0" using lm l by simp
  obtain shift where
    s: "point_collection_epsilon P N (stack w0 (nat (0 + 1))) means means0 = Inr shift"
    using point_collection_epsilon_defined [OF eq] by blast
  have "lloyd_loop P N data k 1 epsilon means0 0 w0 =
          (Inr (means, clusters), w0\<lparr>passes := passes w0 + 1\<rparr>)"
    using lloyd_loop_step [OF c m s, of 1 epsilon] by simp
  moreover have "kmeans_lloyd P N data k 1 seed epsilon w = lloyd_loop P N data k 1 epsilon means0 0 w0"
    using kmeans_lloyd_valid [OF assms(2) _ assms(3) r, of 1 epsilon] by simp
  ultimately show ?thesis using r c m by simp
qed

theorem single_pass_witness:
  "\<exists>means0 w0 clusters means.
     random_plusplus int_platform 1 [[0], [4], [8], [20]] 2 1 (world0 0 ([0], [0])) = (Inr means0, w0) \<and>
     calculate_clusters 1 [[0], [4], [8], [20]] means0 = Inr clusters \<and>
     calculate_means int_platform 1 [[0], [4], [8], [20]] clusters means0 2 = Inr means \<and>
     kmeans_lloyd int_platform 1 [[0], [4], [8], [20]] 2 1 1 0 (world0 0 ([0], [0])) =
       (Inr (means, clusters), w0\<lparr>passes := passes w0 + 1\<rparr>)"
proof -
  have "(0::nat) < 2" by simp
  moreover have "2 \<le> length [[0], [4], [8], [20::int]]" by simp
  ultimately show ?thesis by (rule single_pass [OF conforming_int_platform])
qed

text \<open>
  Claim C9. With \<open>k = 0\<close>, \<open>maxIter \<le> 0\<close> or fewer than \<open>k\<close> data points,
  \<open>kmeans_lloyd\<close> fails on an assertion and leaves the world as it found it: the entropy
  source has not been read, nothing has been drawn, no pass has been made. So does the
  initialiser on \<open>k = 0\<close>.
\<close>

theorem precondition_failures:
  assumes "k = 0 \<or> maxIter \<le> 0 \<or> length data < k"
  shows "kmeans_lloyd P N data k maxIter seed epsilon w = (Inl AssertionFailed, w) \<and>
         random_plusplus P N data 0 seed w = (Inl AssertionFailed, w)"
  using assms by (auto simp: kmeans_lloyd_def random_plusplus_def)

theorem precondition_failures_witness:
  "kmeans_lloyd int_platform 1 [[0], [4]] 3 10 1 0 (world0 0 ([0], [0])) =
     (Inl AssertionFailed, world0 0 ([0], [0])) \<and>
   random_plusplus int_platform 1 [[0], [4]] 0 1 (world0 0 ([0], [0])) =
     (Inl AssertionFailed, world0 0 ([0], [0]))"
proof -
  have "(3::nat) = 0 \<or> (10::int) \<le> 0 \<or> length [[0], [4::int]] < 3" by simp
  then show ?thesis by (rule precondition_failures)
qed

text \<open>
  Claim C10. A call that passes the seed \<open>-1\<close> is the call that passes no seed. It reads
  the entropy source once, on valid input, and returns what the explicit seed equal to
  the value read would have returned (the value \<open>-1\<close> itself seeds the engine as \<open>0\<close>
  does); a call with any other seed does not read the source. Two worlds that differ in
  what the source delivers give two different results for the seed \<open>-1\<close>.
\<close>

theorem seed_minus_one_is_no_seed:
  "kmeans_lloyd_call P N data k maxIter (Some (- 1)) epsilon w =
     kmeans_lloyd_call P N data k maxIter None epsilon w \<and>
   fst (kmeans_lloyd P N data k maxIter (- 1) eps w) =
     fst (kmeans_lloyd P N data k maxIter
            (if device_seed (rand_device w) = - 1 then 0 else device_seed (rand_device w)) eps w) \<and>
   device_reads (snd (kmeans_lloyd P N data k maxIter seed eps w)) =
     (if 0 < k \<and> 0 < maxIter \<and> k \<le> length data \<and> seed = - 1 then device_reads w + 1
      else device_reads w) \<and>
   fst (kmeans_lloyd int_platform 1 [[0], [4], [8], [20]] 2 1 (- 1) 0 (world0 1 ([0], [0]))) \<noteq>
   fst (kmeans_lloyd int_platform 1 [[0], [4], [8], [20]] 2 1 (- 1) 0 (world0 0 ([0], [0])))"
proof -
  have "kmeans_lloyd_call P N data k maxIter (Some (- 1)) epsilon w =
     kmeans_lloyd_call P N data k maxIter None epsilon w"
    by (simp add: kmeans_lloyd_call_def)
  moreover have "fst (kmeans_lloyd int_platform 1 [[0], [4], [8], [20]] 2 1 (- 1) 0 (world0 1 ([0], [0]))) \<noteq>
     fst (kmeans_lloyd int_platform 1 [[0], [4], [8], [20]] 2 1 (- 1) 0 (world0 0 ([0], [0])))"
    unfolding sentinel_entropy_1 sentinel_entropy_0 by simp
  ultimately show ?thesis
    using sentinel_run [of P N data k maxIter eps w] kmeans_reads [of P N data k maxIter seed eps w]
    by blast
qed

theorem seed_minus_one_is_no_seed_witness:
  "fst (kmeans_lloyd int_platform 1 [[0], [4], [8], [20]] 2 1 (- 1) 0 (world0 1 ([0], [0]))) =
     fst (kmeans_lloyd int_platform 1 [[0], [4], [8], [20]] 2 1 1 0 (world0 1 ([0], [0]))) \<and>
   device_reads (snd (kmeans_lloyd int_platform 1 [[0], [4], [8], [20]] 2 1 (- 1) 0 (world0 1 ([0], [0])))) = 1 \<and>
   device_reads (snd (kmeans_lloyd int_platform 1 [[0], [4], [8], [20]] 2 1 1 0 (world0 1 ([0], [0])))) = 0"
proof -
  have d: "device_seed (rand_device (world0 1 ([0], [0::int]))) = 1"
    by (simp add: world0_def device_seed_def)
  have r: "device_reads (world0 1 ([0], [0::int])) = 0" by (simp add: world0_def)
  show ?thesis
    using seed_minus_one_is_no_seed [where P = int_platform and N = 1 and data = "[[0], [4], [8], [20]]" and k = 2
        and maxIter = 1 and eps = 0 and w = "world0 1 ([0], [0])" and seed = "- 1"]
      seed_minus_one_is_no_seed [where P = int_platform and N = 1 and data = "[[0], [4], [8], [20]]" and k = 2
        and maxIter = 1 and eps = 0 and w = "world0 1 ([0], [0])" and seed = 1] d r
    by simp
qed

end
